theory Spec2Isabelle
  imports Main "HOL-Library.Multiset" "HOL-Library.List_Lexorder"
begin

text \<open>
  The command \<open>starred\<close> of \<open>starred.py\<close>: it fetches the repositories a user has
  starred, groups them by language, sorts the groups, compares the result with the
  snapshot of the last run, renders a markdown document and, when a repository is named,
  commits the document to it. The pure steps are functions on lists; the command is a
  function on an explicit state that records every effect in order, and what comes from
  outside (the date, the directories, the answers of the remote API) is a parameter.
\<close>

section \<open>Strings\<close>

text \<open>
  The program is Python 3: a \<open>str\<close> is a sequence of Unicode code points, compared
  lexicographically by code point. A code point is a \<open>nat\<close>, a string a list of them,
  ordered by the lexicographic order on lists. \<open>py\<close> turns an ASCII literal into
  such a string.
\<close>

type_synonym pystr = "nat list"

definition py :: "string \<Rightarrow> pystr" where
  "py s = map of_char s"

text \<open>
  The characters \<open>str.strip()\<close> removes when called without argument: those for which
  \<open>str.isspace\<close> holds.
\<close>

definition isspace :: "nat \<Rightarrow> bool" where
  "isspace c \<longleftrightarrow>
     (9 \<le> c \<and> c \<le> 13) \<or> (28 \<le> c \<and> c \<le> 32) \<or> c = 133 \<or> c = 160 \<or> c = 5760 \<or>
     (8192 \<le> c \<and> c \<le> 8202) \<or> c = 8232 \<or> c = 8233 \<or> c = 8239 \<or> c = 8287 \<or> c = 12288"

definition strip :: "pystr \<Rightarrow> pystr" where
  "strip s = rev (dropWhile isspace (rev (dropWhile isspace s)))"

text \<open>
  \<open>s.replace(old, new)\<close>: every occurrence of \<open>old\<close>, found from the left and not
  overlapping, becomes \<open>new\<close>; an empty \<open>old\<close> matches before every character and at
  the end.
\<close>

function replace :: "pystr \<Rightarrow> pystr \<Rightarrow> pystr \<Rightarrow> pystr" where
  "replace old new s =
     (if old = [] then new @ concat (map (\<lambda>c. c # new) s)
      else if s = [] then []
      else if take (length old) s = old then new @ replace old new (drop (length old) s)
      else hd s # replace old new (tl s))"
  by pat_completeness auto
termination
  by (relation "measure (\<lambda>(old, new, s). length s)") auto

declare replace.simps [simp del]

text \<open>\<open>str(n)\<close> and \<open>'{}'.format(n)\<close> for a length \<open>n\<close>: the decimal digits.\<close>

fun str_nat :: "nat \<Rightarrow> pystr" where
  "str_nat n = (if n < 10 then [48 + n] else str_nat (n div 10) @ [48 + n mod 10])"

declare str_nat.simps [simp del]

text \<open>Truth value of an optional string: \<open>None\<close> and \<open>''\<close> are false.\<close>

fun truthy :: "pystr option \<Rightarrow> bool" where
  "truthy None = False"
| "truthy (Some s) = (s \<noteq> [])"

section \<open>Description escaping\<close>

definition html_escape_table :: "(nat \<times> pystr) list" where
  "html_escape_table = [(of_char CHR ''>'', py ''&gt;''), (of_char CHR ''<'', py ''&lt;'')]"

definition html_escape :: "pystr \<Rightarrow> pystr" where
  "html_escape text =
     concat (map (\<lambda>c. case map_of html_escape_table c of Some e \<Rightarrow> e | None \<Rightarrow> [c]) text)"

section \<open>Fetched records and grouping\<close>

text \<open>What the loop reads of one starred repository of the remote API.\<close>

record star =
  s_name :: pystr
  s_html_url :: pystr
  s_description :: "pystr option"
  s_owner_login :: pystr
  s_stargazers_count :: int
  s_language :: "pystr option"

text \<open>
  The six-element list the loop appends to \<open>repo_dict[language]\<close>; the fields are its
  positions 0 to 5.
\<close>

record repo =
  r_name :: pystr
  r_url :: pystr
  r_description :: pystr
  r_owner :: pystr
  r_stars :: int
  r_order :: nat

type_synonym repo_dict = "(pystr \<times> repo list) list"
type_synonym snapshot = "(pystr \<times> (pystr \<times> pystr) list) list"

text \<open>
  A Python dict keeps its keys in insertion order; it is a list of pairs with distinct
  keys. \<open>dict_append d k v\<close> is
  \<^verbatim>\<open>if k not in d: d[k] = []\<close> followed by \<^verbatim>\<open>d[k].append(v)\<close>.
\<close>

fun dict_append :: "('k \<times> 'v list) list \<Rightarrow> 'k \<Rightarrow> 'v \<Rightarrow> ('k \<times> 'v list) list" where
  "dict_append [] k v = [(k, [v])]"
| "dict_append ((k', vs) # d) k v =
     (if k' = k then (k', vs @ [v]) # d else (k', vs) # dict_append d k v)"

definition language_of :: "star \<Rightarrow> pystr" where
  "language_of s = (if truthy (s_language s) then the (s_language s) else py ''Others'')"

definition description_of :: "star \<Rightarrow> pystr" where
  "description_of s =
     (if truthy (s_description s) then replace [10] [] (html_escape (the (s_description s)))
      else [])"

definition entry :: "star \<Rightarrow> nat \<Rightarrow> repo" where
  "entry s star_order =
     \<lparr>r_name = s_name s, r_url = s_html_url s, r_description = strip (description_of s),
      r_owner = s_owner_login s, r_stars = s_stargazers_count s, r_order = star_order\<rparr>"

text \<open>The loop over the fetched stars, with its counter and its two dictionaries.\<close>

fun collect :: "star list \<Rightarrow> nat \<Rightarrow> repo_dict \<Rightarrow> snapshot \<Rightarrow> repo_dict \<times> snapshot" where
  "collect [] star_order repo_dict new_dict = (repo_dict, new_dict)"
| "collect (s # ss) star_order repo_dict new_dict =
     collect ss (star_order + 1)
       (dict_append repo_dict (language_of s) (entry s star_order))
       (dict_append new_dict (language_of s) (s_name s, s_html_url s))"

text \<open>
  \<open>sorted(xs, key=f, reverse=r)\<close> is stable; with \<open>reverse=True\<close> the list is
  reversed, sorted and reversed again, so equal keys keep their order there too.
\<close>

definition sorted_py :: "('a \<Rightarrow> 'k::linorder) \<Rightarrow> bool \<Rightarrow> 'a list \<Rightarrow> 'a list" where
  "sorted_py f reverse xs = (if reverse then rev (sort_key f (rev xs)) else sort_key f xs)"

text \<open>\<open>OrderedDict(sorted(d.items(), key=lambda l: l[0]))\<close>.\<close>

definition sorted_items :: "(pystr \<times> 'v) list \<Rightarrow> (pystr \<times> 'v) list" where
  "sorted_items d = sorted_py fst False d"

datatype sort_mode = Stars | Date | Name

text \<open>The three branches on \<open>sort\<close>: each group is sorted and its length added to \<open>total\<close>.\<close>

fun sort_groups :: "sort_mode \<Rightarrow> repo_dict \<Rightarrow> nat \<Rightarrow> repo_dict \<times> nat" where
  "sort_groups m [] tot = ([], tot)"
| "sort_groups m ((language, rs) # d) tot =
     (let rs' = (case m of
                   Date \<Rightarrow> sorted_py r_order False rs
                 | Name \<Rightarrow> sorted_py r_name False rs
                 | Stars \<Rightarrow> sorted_py r_stars True rs);
          (d', total') = sort_groups m d (tot + length rs')
      in ((language, rs') # d', total'))"

text \<open>
  Grouping, ordering of the languages and sorting inside the groups: the groups and the
  total the renderer receives.
\<close>

definition aggregate :: "star list \<Rightarrow> sort_mode \<Rightarrow> repo_dict \<times> nat" where
  "aggregate ss m = sort_groups m (sorted_items (fst (collect ss 0 [] []))) 0"

definition snapshot_of :: "star list \<Rightarrow> snapshot" where
  "snapshot_of ss = sorted_items (snd (collect ss 0 [] []))"

section \<open>Rendering\<close>

datatype out_type = TypeTable | TypeList

text \<open>The options of the command line.\<close>

record args =
  username :: pystr
  token :: "pystr option"
  sort_arg :: sort_mode
  repository :: pystr
  message :: "pystr option"
  output_arg :: pystr
  launch :: bool
  type_arg :: out_type

datatype cell = S pystr | N int

text \<open>
  What one \<open>click.echo\<close> writes. The heading of a section and the empty line are kept
  as text; the other templates and the table of the external table renderer are kept as
  a constructor holding the template's arguments.
\<close>

datatype piece =
    Desc nat pystr
  | Contents pystr nat
  | Text pystr
  | TableOf "cell list list"
  | Item pystr pystr pystr
  | License pystr

text \<open>\<^verbatim>\<open>'## {} ({}) \n'.format(language.replace('#', '# #'), count)\<close>\<close>

definition heading :: "pystr \<Rightarrow> nat \<Rightarrow> pystr" where
  "heading language n =
     py ''## '' @ replace (py ''#'') (py ''# #'') language @ py '' ('' @ str_nat n @ py '') '' @ [10]"

definition header_row :: "cell list" where
  "header_row = [S [], S (py ''Name''), S (py ''Description''), S (py ''Owner''), S (py ''Stars'')]"

definition info_rows :: "repo list \<Rightarrow> cell list list" where
  "info_rows rs =
     map (\<lambda>(index, repo).
            [N (int index + 1),
             S (py ''['' @ r_name repo @ py '']('' @ r_url repo @ py '')''),
             S (r_description repo), S (r_owner repo), N (r_stars repo)])
         (enumerate 0 rs)"

text \<open>
  One section: the heading with the number of rows, then the table (with the header
  row inserted first) or one line for each entry of \<open>repo_dict[language]\<close>, then an
  empty line. The keys of \<open>info_dict\<close> are those of \<open>repo_dict\<close>, so the lookup finds
  the language.
\<close>

definition section_of :: "out_type \<Rightarrow> repo_dict \<Rightarrow> pystr \<times> cell list list \<Rightarrow> piece list" where
  "section_of ty repo_dict = (\<lambda>(language, info).
     Text (heading language (length info)) #
     (case ty of
        TypeTable \<Rightarrow> [TableOf (header_row # info)]
      | TypeList \<Rightarrow>
          map (\<lambda>repo. Item (r_name repo) (r_url repo) (r_description repo))
            (case map_of repo_dict language of Some rs \<Rightarrow> rs | None \<Rightarrow> [])) @
     [Text []])"

definition document :: "args \<Rightarrow> pystr \<Rightarrow> repo_dict \<Rightarrow> nat \<Rightarrow> piece list" where
  "document a day repo_dict tot =
     Desc tot day #
     map (\<lambda>(language, rs). Contents language (length rs)) repo_dict @
     [Text []] @
     concat (map (section_of (type_arg a) repo_dict)
               (sorted_items (map (\<lambda>(language, rs). (language, info_rows rs)) repo_dict))) @
     [License (username a)]"

section \<open>Effects\<close>

datatype exn = ForbiddenError | NotFoundError | OSError | OtherError

text \<open>The calls to the remote API, with their arguments.\<close>

datatype api_call =
    StarredBy pystr
  | Repository pystr pystr
  | FileContents pystr
  | Readme
  | ReadmeUpdate pystr "piece list"
  | CreateFile pystr pystr "piece list"
  | CreateRepository pystr pystr

datatype err = NeedToken | TalkFailed | NotChange pystr | AlreadyCommit pystr

datatype target = ToConsole | ToRepoFile | ToFile pystr

datatype event =
    MakeDirs pystr
  | OpenWrite pystr
  | Stderr err
  | Call api_call
  | Dump snapshot
  | Echo target piece
  | Launch

datatype stream = Console | RepoFile

text \<open>
  The state a run changes: the local files it opens, the snapshot file
  \<open>starred-repo.pkl\<close> (\<open>None\<close> when the file does not exist), what \<open>sys.stdout\<close>
  refers to, the content of the buffer \<open>repo_file\<close>, and the effects so far in order.
\<close>

record state =
  files :: "pystr \<rightharpoonup> piece list"
  pkl :: "snapshot option"
  sys_stdout :: stream
  repo_file :: "piece list"
  trace :: "event list"

text \<open>
  What a run reads from outside: the date, the directories that exist, what
  \<open>os.makedirs\<close> and \<open>open(output, "w")\<close> raise if they fail, the stars the remote
  API yields and the exception the iteration may end with, and for every remote call
  whether it raises, which may depend on everything done before. Reading and writing
  the snapshot file and writing to an open stream are taken to succeed.
\<close>

record env =
  today :: pystr
  isdir :: "pystr \<Rightarrow> bool"
  makedirs_error :: "exn option"
  open_error :: "exn option"
  stars :: "star list"
  iter_error :: "exn option"
  respond :: "event list \<Rightarrow> api_call \<Rightarrow> exn option"

datatype outcome = Finished | Aborted err | Raised exn

definition fresh :: "(pystr \<rightharpoonup> piece list) \<Rightarrow> snapshot option \<Rightarrow> state" where
  "fresh fs p = \<lparr>files = fs, pkl = p, sys_stdout = Console, repo_file = [], trace = []\<rparr>"

definition log :: "event \<Rightarrow> state \<Rightarrow> state" where
  "log ev st = st\<lparr>trace := trace st @ [ev]\<rparr>"

text \<open>
  \<open>click.echo(p, file=output_file)\<close>: to the file when there is one, else to what
  \<open>sys.stdout\<close> refers to at that moment.
\<close>

definition echo :: "pystr option \<Rightarrow> piece \<Rightarrow> state \<Rightarrow> state" where
  "echo output_file p st =
     (case output_file of
        Some f \<Rightarrow>
          log (Echo (ToFile f) p)
            (st\<lparr>files := (files st)(f \<mapsto> (case files st f of Some ps \<Rightarrow> ps | None \<Rightarrow> []) @ [p])\<rparr>)
      | None \<Rightarrow>
          (case sys_stdout st of
             Console \<Rightarrow> log (Echo ToConsole p) st
           | RepoFile \<Rightarrow> log (Echo ToRepoFile p) (st\<lparr>repo_file := repo_file st @ [p]\<rparr>)))"

fun echo_all :: "pystr option \<Rightarrow> piece list \<Rightarrow> state \<Rightarrow> state" where
  "echo_all output_file [] st = st"
| "echo_all output_file (p # ps) st = echo_all output_file ps (echo output_file p st)"

text \<open>\<open>os.path.split(p)[0]\<close> on a POSIX system.\<close>

definition path_head :: "pystr \<Rightarrow> pystr" where
  "path_head p =
     (let head = rev (dropWhile (\<lambda>c. c \<noteq> 47) (rev p))
      in if head \<noteq> [] \<and> \<not> list_all (\<lambda>c. c = 47) head
         then rev (dropWhile (\<lambda>c. c = 47) (rev head)) else head)"

text \<open>
  The first statements of \<open>starred\<close>: for a non-blank \<open>--output\<close> the missing
  directory is created and the file is opened for writing, which creates it or empties
  it. Either step may raise; nothing catches that, and a file that could not be opened
  is left as it was.
\<close>

definition open_output :: "args \<Rightarrow> env \<Rightarrow> state \<Rightarrow> (exn + pystr option) \<times> state" where
  "open_output a e st =
     (if strip (output_arg a) \<noteq> [] then
        let out = strip (output_arg a);
            output_path = path_head out;
            makes = (output_path \<noteq> [] \<and> \<not> isdir e output_path)
        in case (if makes then makedirs_error e else None) of
             Some x \<Rightarrow> (Inl x, st)
           | None \<Rightarrow>
               let st1 = (if makes then log (MakeDirs output_path) st else st)
               in (case open_error e of
                     Some x \<Rightarrow> (Inl x, st1)
                   | None \<Rightarrow>
                       (Inr (Some out), log (OpenWrite out) (st1\<lparr>files := (files st1)(out \<mapsto> [])\<rparr>)))
      else (Inr None, st))"

text \<open>
  \<open>gh.starred_by(username)\<close> inside its \<open>try\<close>, which catches \<open>ForbiddenError\<close>
  only, and the iteration of the result by the loop, outside of it. The client returns
  a lazy iterator: it sends its requests while the loop iterates, so what the remote
  API refuses surfaces as \<open>iter_error\<close>.
\<close>

definition fetch :: "args \<Rightarrow> env \<Rightarrow> state \<Rightarrow> (outcome + star list) \<times> state" where
  "fetch a e st =
     (let r = respond e (trace st) (StarredBy (username a));
          st1 = log (Call (StarredBy (username a))) st
      in if r = Some ForbiddenError then (Inl (Aborted TalkFailed), log (Stderr TalkFailed) st1)
         else case r of
           Some x \<Rightarrow> (Inl (Raised x), st1)
         | None \<Rightarrow>
             (case iter_error e of
                Some x \<Rightarrow> (Inl (Raised x), st1)
              | None \<Rightarrow> (Inr (stars e), st1)))"

text \<open>The value of \<open>save_pkl\<close> after the comparison with the stored snapshot.\<close>

definition save_pkl :: "snapshot option \<Rightarrow> snapshot \<Rightarrow> bool" where
  "save_pkl stored new_dict =
     (case stored of Some old_dict \<Rightarrow> \<not> (old_dict = new_dict) | None \<Rightarrow> True)"

definition detect_change :: "bool \<Rightarrow> pystr \<Rightarrow> snapshot \<Rightarrow> state \<Rightarrow> outcome option \<times> state" where
  "detect_change repo_mode day new_dict st =
     (if \<not> save_pkl (pkl st) new_dict \<and> repo_mode
      then (Some (Aborted (NotChange day)), log (Stderr (NotChange day)) st)
      else if save_pkl (pkl st) new_dict
      then (None, log (Dump new_dict) (st\<lparr>pkl := Some new_dict\<rparr>))
      else (None, st))"

section \<open>Publishing\<close>

type_synonym action = "state \<Rightarrow> exn option \<times> state"

definition call :: "env \<Rightarrow> api_call \<Rightarrow> action" where
  "call e c st = (respond e (trace st) c, log (Call c) st)"

definition report :: "err \<Rightarrow> action" where
  "report er st = (None, log (Stderr er) st)"

definition seq :: "action \<Rightarrow> action \<Rightarrow> action" where
  "seq f g st = (case f st of (None, st1) \<Rightarrow> g st1 | (Some x, st1) \<Rightarrow> (Some x, st1))"

definition try_except :: "action \<Rightarrow> exn \<Rightarrow> action \<Rightarrow> action" where
  "try_except body x handler st =
     (case body st of
        (None, st1) \<Rightarrow> (None, st1)
      | (Some y, st1) \<Rightarrow> if y = x then handler st1 else (Some y, st1))"

text \<open>
  The two nested \<open>try\<close> statements under \<open>if repo_file\<close>, each catching
  \<open>NotFoundError\<close>; \<open>content\<close> is \<open>repo_file.getvalue()\<close>. An exception raised
  in the inner handler is inside the outer \<open>try\<close>. The path looked up starts with a
  slash, the path created does not.
\<close>

definition upload :: "args \<Rightarrow> env \<Rightarrow> piece list \<Rightarrow> action" where
  "upload a e content =
     (let msg = (if truthy (message a) then the (message a) else py ''Add starred '' @ today e);
          archive = py ''Archives/README-'' @ today e @ py ''.md'';
          archive_msg = py ''Archive starred '' @ today e
      in try_except
           (seq (call e (Repository (username a) (repository a)))
              (try_except
                 (seq (call e (FileContents (py ''/'' @ archive)))
                      (report (AlreadyCommit (today e))))
                 NotFoundError
                 (seq (call e Readme)
                    (seq (call e (ReadmeUpdate msg content))
                         (call e (CreateFile archive archive_msg content))))))
           NotFoundError
           (seq (call e (CreateRepository (repository a)
                           (py ''A curated list of my GitHub stars!'')))
              (seq (call e (CreateFile (py ''README.md'') (py ''Add starred '' @ today e) content))
                   (call e (CreateFile archive archive_msg content)))))"

text \<open>The block under \<open>if repo_file\<close>: the upload, then the launch.\<close>

definition publish :: "args \<Rightarrow> env \<Rightarrow> action" where
  "publish a e st =
     seq (upload a e (repo_file st))
         (\<lambda>st1. (None, if launch a then log Launch st1 else st1))
         st"

section \<open>The command\<close>

definition starred :: "args \<Rightarrow> env \<Rightarrow> state \<Rightarrow> outcome \<times> state" where
  "starred a e st0 =
     (case open_output a e st0 of
        (Inl x, st1) \<Rightarrow> (Raised x, st1)
      | (Inr opened, st1) \<Rightarrow>
          if repository a \<noteq> [] \<and> \<not> truthy (token a)
          then (Aborted NeedToken, log (Stderr NeedToken) st1)
          else
            let repo_mode = (repository a \<noteq> []);
                st2 = (if repo_mode then st1\<lparr>sys_stdout := RepoFile, repo_file := []\<rparr> else st1);
                output_file = (if repo_mode then None else opened)
            in case fetch a e st2 of
                 (Inl out, st3) \<Rightarrow> (out, st3)
               | (Inr ss, st3) \<Rightarrow>
                   (case detect_change repo_mode (today e) (snapshot_of ss) st3 of
                      (Some out, st4) \<Rightarrow> (out, st4)
                    | (None, st4) \<Rightarrow>
                        let (repo_dict, tot) = aggregate ss (sort_arg a);
                            st5 = echo_all output_file (document a (today e) repo_dict tot) st4
                        in if repo_mode
                           then (case publish a e st5 of
                                   (Some x, st6) \<Rightarrow> (Raised x, st6)
                                 | (None, st6) \<Rightarrow> (Finished, st6))
                           else (Finished, st5)))"

section \<open>Definitions used by the statements\<close>

text \<open>A property of every key and value of a dictionary of lists.\<close>

definition dict_all :: "('k \<Rightarrow> 'v \<Rightarrow> bool) \<Rightarrow> ('k \<times> 'v list) list \<Rightarrow> bool" where
  "dict_all P d = (\<forall>(k, vs) \<in> set d. \<forall>v \<in> set vs. P k v)"

text \<open>What \<open>sort_groups\<close> does to one group.\<close>

definition sort_one :: "sort_mode \<Rightarrow> repo list \<Rightarrow> repo list" where
  "sort_one m rs = (case m of Date \<Rightarrow> sorted_py r_order False rs
                 | Name \<Rightarrow> sorted_py r_name False rs
                 | Stars \<Rightarrow> sorted_py r_stars True rs)"

text \<open>
  The sanitization of a description as the specification words it: escape \<open><\<close> and
  \<open>>\<close> and nothing else, remove the newline characters, strip the white space at both
  ends; no description gives the empty string. Stripping is written here on its own,
  without the \<open>strip\<close> of the model: the leading white space is dropped character by
  character, and the trailing white space likewise from the other end. The statement
  about descriptions also says what stripping means without any function: the result
  lies inside the text between two runs of white space, and neither starts nor ends
  with white space.
\<close>

fun spec_lstrip :: "pystr \<Rightarrow> pystr" where
  "spec_lstrip [] = []"
| "spec_lstrip (c # cs) = (if isspace c then spec_lstrip cs else c # cs)"

definition spec_strip :: "pystr \<Rightarrow> pystr" where
  "spec_strip s = rev (spec_lstrip (rev (spec_lstrip s)))"

definition spec_escape :: "pystr \<Rightarrow> pystr" where
  "spec_escape d =
     concat (map (\<lambda>c. if c = of_char CHR ''<'' then py ''&lt;''
                       else if c = of_char CHR ''>'' then py ''&gt;'' else [c]) d)"

definition spec_sanitize :: "pystr option \<Rightarrow> pystr" where
  "spec_sanitize d =
     (case d of None \<Rightarrow> [] | Some t \<Rightarrow> spec_strip (filter (\<lambda>c. c \<noteq> 10) (spec_escape t)))"

text \<open>
  Where \<open>echo\<close> writes; what the opening of the output raises, if anything; and the
  events of \<open>open_output\<close> when it raises nothing.
\<close>

definition target_of :: "pystr option \<Rightarrow> stream \<Rightarrow> target" where
  "target_of output_file out =
     (case output_file of Some f \<Rightarrow> ToFile f
      | None \<Rightarrow> (case out of Console \<Rightarrow> ToConsole | RepoFile \<Rightarrow> ToRepoFile))"

definition open_raises :: "args \<Rightarrow> env \<Rightarrow> exn option" where
  "open_raises a e =
     (if strip (output_arg a) = [] then None
      else if path_head (strip (output_arg a)) \<noteq> [] \<and> \<not> isdir e (path_head (strip (output_arg a)))
              \<and> makedirs_error e \<noteq> None
      then makedirs_error e
      else open_error e)"

definition open_events :: "args \<Rightarrow> env \<Rightarrow> event list" where
  "open_events a e =
     (if strip (output_arg a) \<noteq> [] then
        (if path_head (strip (output_arg a)) \<noteq> [] \<and> \<not> isdir e (path_head (strip (output_arg a)))
         then [MakeDirs (path_head (strip (output_arg a)))] else []) @
        [OpenWrite (strip (output_arg a))]
      else [])"

text \<open>
  An action that leaves the snapshot file, \<open>sys.stdout\<close>, the buffer and the local
  files alone.
\<close>

definition keeps :: "action \<Rightarrow> bool" where
  "keeps f \<longleftrightarrow> (\<forall>st. pkl (snd (f st)) = pkl st \<and> sys_stdout (snd (f st)) = sys_stdout st
                    \<and> files (snd (f st)) = files st \<and> repo_file (snd (f st)) = repo_file st)"

section \<open>Example inputs\<close>

text \<open>
  Four stars in fetch order: \<open>b\<close> and \<open>d\<close> have the same star count, \<open>c\<close> has no
  language, and the description of \<open>b\<close> starts with a tab and a blank and ends with a
  blank and a carriage return.
\<close>

definition ex_star :: "string \<Rightarrow> string option \<Rightarrow> int \<Rightarrow> string option \<Rightarrow> star" where
  "ex_star nm d n l =
     \<lparr>s_name = py nm, s_html_url = py ''https://github.com/o/'' @ py nm,
      s_description = map_option py d, s_owner_login = py ''o'',
      s_stargazers_count = n, s_language = map_option py l\<rparr>"

definition ex_b :: star where
  "ex_b = ex_star ''b'' (Some ([CHR 0x09, CHR '' ''] @ ''a<b> c'' @ [CHR '' '', CHR 0x0D])) 20 (Some ''Go'')"

definition ex_a :: star where
  "ex_a = ex_star ''a'' None 10 (Some ''Go'')"

definition ex_d :: star where
  "ex_d = ex_star ''d'' (Some []) 20 (Some ''Go'')"

definition ex_c :: star where
  "ex_c = ex_star ''c'' None 5 None"

definition ex_stars :: "star list" where
  "ex_stars = [ex_b, ex_a, ex_d, ex_c]"

section \<open>Definitions used by the statements about runs\<close>

text \<open>The remote calls among the effects of a run, in order.\<close>

fun calls_of :: "event list \<Rightarrow> api_call list" where
  "calls_of [] = []"
| "calls_of (Call c # evs) = c # calls_of evs"
| "calls_of (ev # evs) = calls_of evs"

text \<open>The remote calls that create or update something in a repository.\<close>

fun writes :: "api_call \<Rightarrow> bool" where
  "writes (ReadmeUpdate m c) = True"
| "writes (CreateFile p m c) = True"
| "writes (CreateRepository r d) = True"
| "writes c = False"

text \<open>The effects that render the document or belong to publishing.\<close>

fun renders_or_publishes :: "event \<Rightarrow> bool" where
  "renders_or_publishes (Echo t p) = True"
| "renders_or_publishes (Call (StarredBy u)) = False"
| "renders_or_publishes (Call c) = True"
| "renders_or_publishes Launch = True"
| "renders_or_publishes ev = False"

text \<open>The path \<open>upload\<close> looks up, the opened output file, and the document of a run.\<close>

definition lookup_path :: "env \<Rightarrow> pystr" where
  "lookup_path e = py ''/Archives/README-'' @ today e @ py ''.md''"

definition output_of :: "args \<Rightarrow> pystr option" where
  "output_of a = (if strip (output_arg a) \<noteq> [] then Some (strip (output_arg a)) else None)"

definition rendered :: "args \<Rightarrow> env \<Rightarrow> piece list" where
  "rendered a e = document a (today e) (fst (aggregate (stars e) (sort_arg a)))
                    (snd (aggregate (stars e) (sort_arg a)))"

text \<open>An action that only adds to the effects so far, and echoes nothing.\<close>

fun is_echo :: "event \<Rightarrow> bool" where
  "is_echo (Echo t p) = True"
| "is_echo ev = False"

definition grows :: "action \<Rightarrow> bool" where
  "grows f \<longleftrightarrow> (\<forall>st. \<exists>evs. trace (snd (f st)) = trace st @ evs \<and> filter is_echo evs = [])"

text \<open>
  The state in which a publishing run whose stars differ from the stored snapshot
  enters \<open>publish\<close>.
\<close>

definition before_publish ::
  "args \<Rightarrow> env \<Rightarrow> (pystr \<rightharpoonup> piece list) \<Rightarrow> snapshot option \<Rightarrow> state" where
  "before_publish a e fs p =
     echo_all None (rendered a e)
       (log (Dump (snapshot_of (stars e)))
          ((log (Call (StarredBy (username a)))
              ((snd (open_output a e (fresh fs p)))\<lparr>sys_stdout := RepoFile, repo_file := []\<rparr>))
           \<lparr>pkl := Some (snapshot_of (stars e))\<rparr>))"

text \<open>
  The effects of \<open>publish\<close> when today's archive is found, and when the repository is
  not found and every other call succeeds.
\<close>

definition duplicate_events :: "args \<Rightarrow> env \<Rightarrow> event list" where
  "duplicate_events a e =
     [Call (Repository (username a) (repository a)), Call (FileContents (lookup_path e)),
      Stderr (AlreadyCommit (today e))] @ (if launch a then [Launch] else [])"

definition create_events :: "args \<Rightarrow> env \<Rightarrow> piece list \<Rightarrow> event list" where
  "create_events a e content =
     [Call (Repository (username a) (repository a)),
      Call (CreateRepository (repository a) (py ''A curated list of my GitHub stars!'')),
      Call (CreateFile (py ''README.md'') (py ''Add starred '' @ today e) content),
      Call (CreateFile (py ''Archives/README-'' @ today e @ py ''.md'')
              (py ''Archive starred '' @ today e) content)]
     @ (if launch a then [Launch] else [])"

text \<open>
  The heading as the specification words the escape: a space inserted after every
  \<open>#\<close> of the language name. The rest is the format string of the source.
\<close>

definition spec_heading :: "pystr \<Rightarrow> nat \<Rightarrow> pystr" where
  "spec_heading language n =
     py ''## '' @
     concat (map (\<lambda>c. if c = of_char CHR ''#'' then [c, of_char CHR '' ''] else [c]) language) @
     py '' ('' @ str_nat n @ py '') '' @ [10]"

section \<open>Example runs\<close>

text \<open>
  The options of user \<open>u\<close> with a token, sorted by stars, with the given repository,
  output path and launch flag; the surroundings on 2024-05-01 in which every directory
  exists, the output can be opened, the remote API yields the example stars, and a
  remote call raises what \<open>r\<close> says; three such \<open>r\<close>; the surroundings in which the
  remote API refuses the credential, which the client finds out while the loop iterates;
  those in which the output cannot be opened; and a file system in which \<open>README.md\<close>
  holds text.
\<close>

definition ex_args :: "string \<Rightarrow> string \<Rightarrow> bool \<Rightarrow> args" where
  "ex_args repo out l =
     \<lparr>username = py ''u'', token = Some (py ''secret''), sort_arg = Stars, repository = py repo,
      message = None, output_arg = py out, launch = l, type_arg = TypeTable\<rparr>"

definition ex_env :: "(api_call \<Rightarrow> exn option) \<Rightarrow> env" where
  "ex_env r =
     \<lparr>today = py ''2024-05-01'', isdir = (\<lambda>p. True), makedirs_error = None, open_error = None,
      stars = ex_stars, iter_error = None, respond = (\<lambda>tr. r)\<rparr>"

definition all_found :: "api_call \<Rightarrow> exn option" where
  "all_found c = None"

definition forbidden :: "api_call \<Rightarrow> exn option" where
  "forbidden c = Some ForbiddenError"

definition no_repository :: "api_call \<Rightarrow> exn option" where
  "no_repository c = (case c of Repository u r \<Rightarrow> Some NotFoundError | _ \<Rightarrow> None)"

definition ex_env_refused :: env where
  "ex_env_refused = (ex_env all_found)\<lparr>iter_error := Some ForbiddenError\<rparr>"

definition ex_env_unopened :: env where
  "ex_env_unopened = (ex_env all_found)\<lparr>open_error := Some OSError\<rparr>"

definition ex_files :: "pystr \<rightharpoonup> piece list" where
  "ex_files = [py ''README.md'' \<mapsto> [Text (py ''old'')]]"

section \<open>Grouping: the loop and the dictionaries\<close>

lemma keys_dict_append: "set (map fst (dict_append d k v)) = insert k (set (map fst d))"
  by (induction d k v rule: dict_append.induct) auto

lemma distinct_dict_append:
  "distinct (map fst d) \<Longrightarrow> distinct (map fst (dict_append d k v))"
proof (induction d k v rule: dict_append.induct)
  case (1 k v) show ?case by simp
next
  case (2 k' vs d k v)
  have "set (map fst (dict_append d k v)) = insert k (set (map fst d))"
    by (rule keys_dict_append)
  with 2 show ?case by auto
qed

lemma mset_dict_append:
  "mset (concat (map snd (dict_append d k v))) = add_mset v (mset (concat (map snd d)))"
  by (induction d k v rule: dict_append.induct) auto

lemma dict_all_append:
  "dict_all P d \<Longrightarrow> P k v \<Longrightarrow> dict_all P (dict_append d k v)"
  by (induction d k v rule: dict_append.induct) (auto simp: dict_all_def)

lemma ascending_dict_append:
  "\<forall>(k, vs) \<in> set d. sorted (map f vs) \<and> (\<forall>x \<in> set vs. f x < n) \<Longrightarrow> f v = n
   \<Longrightarrow> \<forall>(k, vs) \<in> set (dict_append d k v). sorted (map f vs) \<and> (\<forall>x \<in> set vs. f x < Suc n)"
  for f :: "'v \<Rightarrow> nat"
  by (induction d k v rule: dict_append.induct) (auto simp: sorted_append less_Suc_eq dest: less_imp_le)

lemma distinct_collect:
  "distinct (map fst rd) \<Longrightarrow> distinct (map fst (fst (collect ss n rd nd)))"
  by (induction ss arbitrary: n rd nd) (auto simp: distinct_dict_append)

lemma mset_collect:
  "mset (concat (map snd (fst (collect ss n rd nd)))) =
     mset (concat (map snd rd)) + mset (map2 entry ss [n ..< n + length ss])"
proof (induction ss arbitrary: n rd nd)
  case Nil show ?case by simp
next
  case (Cons s ss)
  have "[n ..< n + length (s # ss)] = n # [Suc n ..< Suc n + length ss]"
    by (simp add: upt_rec)
  then show ?case by (simp add: Cons.IH mset_dict_append)
qed

lemma dict_all_collect:
  "dict_all P rd \<Longrightarrow> (\<forall>i < length ss. P (language_of (ss ! i)) (entry (ss ! i) (n + i)))
   \<Longrightarrow> dict_all P (fst (collect ss n rd nd))"
proof (induction ss arbitrary: n rd nd)
  case Nil then show ?case by simp
next
  case (Cons s ss)
  from Cons.prems(2) have h0: "P (language_of s) (entry s n)" by force
  have hs: "\<forall>i < length ss. P (language_of (ss ! i)) (entry (ss ! i) (Suc n + i))"
  proof (intro allI impI)
    fix i assume "i < length ss"
    then have "Suc i < length (s # ss)" by simp
    with Cons.prems(2) have "P (language_of ((s # ss) ! Suc i)) (entry ((s # ss) ! Suc i) (n + Suc i))"
      by blast
    then show "P (language_of (ss ! i)) (entry (ss ! i) (Suc n + i))" by simp
  qed
  show ?case
    using Cons.IH [OF dict_all_append [OF Cons.prems(1) h0] hs] by simp
qed

lemma ascending_collect:
  "\<forall>(k, vs) \<in> set rd. sorted (map r_order vs) \<and> (\<forall>x \<in> set vs. r_order x < n)
   \<Longrightarrow> \<forall>(k, vs) \<in> set (fst (collect ss n rd nd)). sorted (map r_order vs)"
proof (induction ss arbitrary: n rd nd)
  case Nil then show ?case by auto
next
  case (Cons s ss)
  have "r_order (entry s n) = n" by (simp add: entry_def)
  from ascending_dict_append [OF Cons.prems this]
  show ?case using Cons.IH [of "dict_append rd (language_of s) (entry s n)" "Suc n"] by simp
qed


section \<open>Sorting\<close>

lemma sort_groups_fst: "fst (sort_groups m d t) = map (\<lambda>(k, rs). (k, sort_one m rs)) d"
  by (induction m d t rule: sort_groups.induct) (simp_all add: sort_one_def Let_def case_prod_beta split: sort_mode.splits)

lemma sort_groups_snd: "snd (sort_groups m d t) = t + length (concat (map snd d))"
  by (induction m d t rule: sort_groups.induct) (simp_all add: Let_def case_prod_beta sorted_py_def split: sort_mode.splits)

lemma mset_sorted_py: "mset (sorted_py f r xs) = mset xs"
  by (simp add: sorted_py_def)

lemma set_sorted_py: "set (sorted_py f r xs) = set xs"
  by (simp add: sorted_py_def)

lemma mset_sort_one: "mset (sort_one m rs) = mset rs"
  by (simp add: sort_one_def mset_sorted_py split: sort_mode.splits)

lemma set_sort_one: "set (sort_one m rs) = set rs"
  by (simp add: sort_one_def set_sorted_py split: sort_mode.splits)

lemma sorted_py_ascending: "sorted (map f (sorted_py f False xs))"
  by (simp add: sorted_py_def)

lemma sorted_py_descending: "sorted (rev (map f (sorted_py f True xs)))"
  by (simp add: sorted_py_def rev_map)

lemma sorted_py_stable: "filter (\<lambda>y. f y = k) (sorted_py f r xs) = filter (\<lambda>y. f y = k) xs"
  by (simp add: sorted_py_def sort_key_stable rev_filter [symmetric])

lemma mset_concat_groups:
  "mset (concat (map snd (map (\<lambda>(k, rs). (k, sort_one m rs)) d))) = mset (concat (map snd d))"
  by (induction d) (auto simp: mset_sort_one)

lemma mset_concat_perm:
  "mset xs = mset ys \<Longrightarrow> mset (concat (map snd xs)) = mset (concat (map snd ys))"
proof -
  assume h: "mset xs = mset ys"
  have "mset (concat (map snd xs)) = sum_mset (image_mset (mset \<circ> snd) (mset xs))" for xs :: "('a \<times> 'b list) list"
    by (induction xs) auto
  with h show ?thesis by simp
qed

lemma mset_concat_sorted_items: "mset (concat (map snd (sorted_items d))) = mset (concat (map snd d))"
  by (rule mset_concat_perm) (simp add: sorted_items_def mset_sorted_py)

lemma set_sorted_items: "set (sorted_items d) = set d"
  by (simp add: sorted_items_def set_sorted_py)

lemma distinct_sorted_items: "distinct (map fst (sorted_items d)) = distinct (map fst d)"
proof -
  have "mset (map fst (sorted_items d)) = mset (map fst d)"
    by (simp add: sorted_items_def mset_sorted_py)
  then show ?thesis by (metis mset_eq_imp_distinct_iff)
qed

lemma keys_sorted: "sorted (map fst (sorted_items d))"
  by (simp add: sorted_items_def sorted_py_def)

lemma groups_aggregate:
  "fst (aggregate ss m) = map (\<lambda>(k, rs). (k, sort_one m rs)) (sorted_items (fst (collect ss 0 [] [])))"
  by (simp add: aggregate_def sort_groups_fst)

lemma map_fst_groups: "map fst (map (\<lambda>(k, rs). (k, sort_one m rs)) d) = map fst d"
  by (induction d) auto

lemma in_groups_aggregate:
  "(k, rs) \<in> set (fst (aggregate ss m)) \<longleftrightarrow>
     (\<exists>rs0. (k, rs0) \<in> set (fst (collect ss 0 [] [])) \<and> rs = sort_one m rs0)"
  by (auto simp: groups_aggregate set_sorted_items)


section \<open>Descriptions and entries\<close>

lemma replace_single_del: "replace [c] [] s = filter (\<lambda>x. x \<noteq> c) s"
proof (induction s)
  case Nil show ?case by (simp add: replace.simps)
next
  case (Cons a s) then show ?case by (subst replace.simps) simp
qed

lemma html_escape_spec: "html_escape d = spec_escape d"
  unfolding html_escape_def spec_escape_def html_escape_table_def
  by (rule arg_cong [where f = concat]) (simp add: py_def)

lemma strip_Nil: "strip [] = []" by (simp add: strip_def)

lemma spec_lstrip_eq: "spec_lstrip s = dropWhile isspace s"
  by (induction s) simp_all

lemma strip_spec: "strip s = spec_strip s"
  by (simp add: strip_def spec_strip_def spec_lstrip_eq)

lemma strip_split: "a = rev (dropWhile P (rev a)) @ rev (takeWhile P (rev a))"
proof -
  have "rev (dropWhile P (rev a)) @ rev (takeWhile P (rev a)) =
        rev (takeWhile P (rev a) @ dropWhile P (rev a))"
    by (simp only: rev_append)
  also have "\<dots> = rev (rev a)"
    by (simp only: takeWhile_dropWhile_id)
  also have "\<dots> = a" by simp
  finally show ?thesis by simp
qed

lemma strip_inside:
  "\<exists>pre post. s = pre @ strip s @ post \<and> list_all isspace pre \<and> list_all isspace post"
proof -
  define a where "a = dropWhile isspace s"
  have s: "s = takeWhile isspace s @ a"
    by (simp add: a_def)
  have a: "a = strip s @ rev (takeWhile isspace (rev a))"
    unfolding strip_def a_def [symmetric] by (rule strip_split)
  have pre: "list_all isspace (takeWhile isspace s)"
    by (auto simp: list_all_iff dest: set_takeWhileD)
  have post: "list_all isspace (rev (takeWhile isspace (rev a)))"
    by (auto simp: list_all_iff dest: set_takeWhileD)
  from s a have "s = takeWhile isspace s @ strip s @ rev (takeWhile isspace (rev a))"
    by simp
  with pre post show ?thesis by blast
qed

lemma strip_ends:
  "strip s = [] \<or> (\<not> isspace (hd (strip s)) \<and> \<not> isspace (last (strip s)))"
proof (cases "strip s = []")
  case True then show ?thesis by simp
next
  case False
  define a where "a = dropWhile isspace s"
  from False have d: "dropWhile isspace (rev a) \<noteq> []"
    by (simp add: strip_def a_def)
  then have l: "\<not> isspace (last (strip s))"
    by (simp add: strip_def a_def [symmetric] last_rev hd_dropWhile)
  from d have ne: "a \<noteq> []" by auto
  have "a = strip s @ rev (takeWhile isspace (rev a))"
    unfolding strip_def a_def [symmetric] by (rule strip_split)
  with False have "hd a = hd (strip s)"
    by (metis hd_append2)
  moreover from ne have "\<not> isspace (hd a)"
    unfolding a_def by (rule hd_dropWhile)
  ultimately show ?thesis using l by simp
qed

lemma entry_description_Some:
  "s_description s = Some d \<Longrightarrow>
     r_description (entry s n) = strip (filter (\<lambda>c. c \<noteq> 10) (spec_escape d))"
  by (simp add: entry_def description_of_def html_escape_spec replace_single_del strip_Nil
        spec_escape_def)

lemma entry_description: "r_description (entry s n) = spec_sanitize (s_description s)"
  by (cases "s_description s")
     (simp_all add: entry_description_Some spec_sanitize_def strip_spec [symmetric],
      simp add: entry_def description_of_def strip_Nil)

lemma entries_collect:
  "dict_all (\<lambda>k v. r_order v < length ss \<and> k = language_of (ss ! r_order v) \<and> v = entry (ss ! r_order v) (r_order v))
     (fst (collect ss 0 [] []))"
  by (rule dict_all_collect) (simp_all add: dict_all_def entry_def)

lemma entries_aggregate:
  assumes "(k, rs) \<in> set (fst (aggregate ss m))" "r \<in> set rs"
  shows "r_order r < length ss \<and> k = language_of (ss ! r_order r) \<and> r = entry (ss ! r_order r) (r_order r)"
proof -
  from assms(1) obtain rs0 where h: "(k, rs0) \<in> set (fst (collect ss 0 [] []))" "rs = sort_one m rs0"
    by (auto simp: in_groups_aggregate)
  with assms(2) have "r \<in> set rs0" by (simp add: set_sort_one)
  with h(1) entries_collect [of ss] show ?thesis
    unfolding dict_all_def by blast
qed


section \<open>The aggregate\<close>

lemma mset_aggregate:
  "mset (concat (map snd (fst (aggregate ss m)))) = mset (map2 entry ss [0 ..< length ss])"
proof -
  have "mset (concat (map snd (fst (aggregate ss m)))) = mset (concat (map snd (fst (collect ss 0 [] []))))"
    by (simp only: groups_aggregate mset_concat_groups mset_concat_sorted_items)
  then show ?thesis by (simp add: mset_collect)
qed

lemma distinct_aggregate: "distinct (map fst (fst (aggregate ss m)))"
proof -
  have "distinct (map fst (fst (collect ss 0 [] [])))"
    by (rule distinct_collect) simp
  then show ?thesis
    by (simp only: groups_aggregate map_fst_groups distinct_sorted_items)
qed

lemma total_aggregate: "snd (aggregate ss m) = length ss"
proof -
  have "size (mset (concat (map snd (sorted_items (fst (collect ss 0 [] [])))))) =
        size (mset (concat (map snd (fst (collect ss 0 [] [])))))"
    by (simp only: mset_concat_sorted_items)
  also have "\<dots> = length ss"
    by (simp add: mset_collect)
  finally show ?thesis by (simp add: aggregate_def sort_groups_snd)
qed

lemma entry_in_input:
  "i < length ss \<Longrightarrow> entry (ss ! i) i \<in> set (map2 entry ss [0 ..< length ss])"
proof -
  assume h: "i < length ss"
  then have "(ss ! i, i) \<in> set (zip ss [0 ..< length ss])"
    by (auto simp: set_zip)
  then show ?thesis by force
qed

lemma distinct_input: "distinct (map2 entry ss [0 ..< length ss])"
proof -
  have "map r_order (map2 entry ss [0 ..< length ss]) = [0 ..< length ss]"
    by (rule nth_equalityI) (simp_all add: entry_def)
  then have "distinct (map r_order (map2 entry ss [0 ..< length ss]))" by simp
  then show ?thesis by (rule distinct_map [THEN iffD1, THEN conjunct1])
qed


section \<open>Effects of the steps\<close>

lemma log_fields [simp]:
  "files (log ev st) = files st" "pkl (log ev st) = pkl st"
  "sys_stdout (log ev st) = sys_stdout st" "repo_file (log ev st) = repo_file st"
  "trace (log ev st) = trace st @ [ev]"
  by (simp_all add: log_def)

lemma fresh_fields [simp]:
  "files (fresh fs p) = fs" "pkl (fresh fs p) = p" "sys_stdout (fresh fs p) = Console"
  "repo_file (fresh fs p) = []" "trace (fresh fs p) = []"
  by (simp_all add: fresh_def)

lemma echo_fields [simp]:
  "pkl (echo f p st) = pkl st" "sys_stdout (echo f p st) = sys_stdout st"
  "trace (echo f p st) = trace st @ [Echo (target_of f (sys_stdout st)) p]"
  by (simp_all add: echo_def target_of_def split: option.splits stream.splits)

lemma echo_all_fields [simp]:
  "pkl (echo_all f ps st) = pkl st" "sys_stdout (echo_all f ps st) = sys_stdout st"
  "trace (echo_all f ps st) = trace st @ map (Echo (target_of f (sys_stdout st))) ps"
  by (induction ps arbitrary: st) simp_all

lemma echo_all_files_None [simp]: "files (echo_all None ps st) = files st"
  by (induction ps arbitrary: st) (simp_all add: echo_def split: stream.splits)

lemma echo_all_repo_file:
  "sys_stdout st = RepoFile \<Longrightarrow> repo_file (echo_all None ps st) = repo_file st @ ps"
  by (induction ps arbitrary: st) (simp_all add: echo_def)

lemma open_output_fields [simp]:
  "pkl (snd (open_output a e st)) = pkl st"
  "sys_stdout (snd (open_output a e st)) = sys_stdout st"
  "repo_file (snd (open_output a e st)) = repo_file st"
  by (simp_all add: open_output_def Let_def split: option.splits)

lemma open_output_opened [simp]:
  assumes "open_raises a e = None"
  shows "fst (open_output a e st) = Inr (output_of a)"
    and "trace (snd (open_output a e st)) = trace st @ open_events a e"
    and "files (snd (open_output a e st)) =
           (if strip (output_arg a) \<noteq> [] then (files st)(strip (output_arg a) \<mapsto> []) else files st)"
  using assms
  by (auto simp: open_output_def open_raises_def open_events_def output_of_def Let_def
        split: option.splits if_splits)

lemma open_output_raised:
  assumes "open_raises a e = Some x"
  shows "fst (open_output a e st) = Inl x"
    and "files (snd (open_output a e st)) = files st"
    and "trace (snd (open_output a e st)) = trace st
         \<or> trace (snd (open_output a e st)) = trace st @ [MakeDirs (path_head (strip (output_arg a)))]"
  using assms
  by (auto simp: open_output_def open_raises_def Let_def split: option.splits if_splits)

lemma fetch_fields [simp]:
  "pkl (snd (fetch a e st)) = pkl st"
  "sys_stdout (snd (fetch a e st)) = sys_stdout st"
  "repo_file (snd (fetch a e st)) = repo_file st"
  "files (snd (fetch a e st)) = files st"
  by (simp_all add: fetch_def Let_def split: option.splits)

lemma detect_change_stdout [simp]:
  "sys_stdout (snd (detect_change r d n st)) = sys_stdout st"
  by (simp add: detect_change_def)

lemma keeps_call: "keeps (call e c)" by (simp add: keeps_def call_def)
lemma keeps_report: "keeps (report er)" by (simp add: keeps_def report_def)
lemma keeps_seq: "keeps f \<Longrightarrow> keeps g \<Longrightarrow> keeps (seq f g)"
  unfolding keeps_def seq_def
  by (simp add: case_prod_beta split: option.splits)
lemma keeps_try: "keeps f \<Longrightarrow> keeps g \<Longrightarrow> keeps (try_except f x g)"
  unfolding keeps_def try_except_def
  by (simp add: case_prod_beta split: option.splits)
lemma keeps_launch: "keeps (\<lambda>st1. (None, if b then log Launch st1 else st1))"
  by (simp add: keeps_def)

lemma keeps_upload: "keeps (upload a e content)"
  unfolding upload_def Let_def
  by (intro keeps_seq keeps_try keeps_call keeps_report)

lemma keeps_publish: "keeps (publish a e)"
  using keeps_seq [OF keeps_upload keeps_launch]
  by (simp add: keeps_def publish_def)


section \<open>The example, evaluated\<close>

lemma entry_fields [simp]:
  "r_name (entry s n) = s_name s" "r_url (entry s n) = s_html_url s"
  "r_owner (entry s n) = s_owner_login s" "r_stars (entry s n) = s_stargazers_count s"
  "r_order (entry s n) = n"
  by (simp_all add: entry_def)

lemma ex_languages:
  "language_of ex_b = py ''Go''" "language_of ex_a = py ''Go''" "language_of ex_d = py ''Go''"
  "language_of ex_c = py ''Others''"
  by (simp_all add: language_of_def ex_star_def py_def ex_a_def ex_b_def ex_c_def ex_d_def)

lemma ex_keys: "py ''Go'' \<noteq> py ''Others''" "py ''Go'' \<le> py ''Others''" "\<not> py ''Others'' \<le> py ''Go''"
  by (simp_all add: py_def)

lemma ex_fields:
  "s_stargazers_count ex_b = 20" "s_stargazers_count ex_a = 10"
  "s_stargazers_count ex_d = 20" "s_stargazers_count ex_c = 5"
  "s_name ex_b = py ''b''" "s_name ex_a = py ''a''"
  "s_name ex_d = py ''d''" "s_name ex_c = py ''c''"
  by (simp_all add: ex_star_def ex_a_def ex_b_def ex_c_def ex_d_def)

lemma ex_collect:
  "fst (collect ex_stars 0 [] []) =
     [(py ''Go'', [entry ex_b 0, entry ex_a 1, entry ex_d 2]), (py ''Others'', [entry ex_c 3])]"
  by (simp add: ex_stars_def ex_languages ex_keys numeral_2_eq_2 numeral_3_eq_3)

lemma ex_aggregate_stars:
  "aggregate ex_stars Stars =
     ([(py ''Go'', [entry ex_b 0, entry ex_d 2, entry ex_a 1]), (py ''Others'', [entry ex_c 3])], 4)"
  by (simp add: aggregate_def ex_collect sorted_items_def sorted_py_def ex_keys ex_fields)

lemma ex_aggregate_name:
  "aggregate ex_stars Name =
     ([(py ''Go'', [entry ex_a 1, entry ex_b 0, entry ex_d 2]), (py ''Others'', [entry ex_c 3])], 4)"
  by (simp add: aggregate_def ex_collect sorted_items_def sorted_py_def ex_keys ex_fields py_def)

lemma ex_aggregate_date:
  "aggregate ex_stars Date =
     ([(py ''Go'', [entry ex_b 0, entry ex_a 1, entry ex_d 2]), (py ''Others'', [entry ex_c 3])], 4)"
  by (simp add: aggregate_def ex_collect sorted_items_def sorted_py_def ex_keys ex_fields)


section \<open>Runs\<close>

lemma publish_keeps [simp]:
  "pkl (snd (publish a e st)) = pkl st" "sys_stdout (snd (publish a e st)) = sys_stdout st"
  "files (snd (publish a e st)) = files st" "repo_file (snd (publish a e st)) = repo_file st"
  using keeps_publish [of a e] by (simp_all add: keeps_def)

lemma detect_change_files [simp]: "files (snd (detect_change r d n st)) = files st"
  by (simp add: detect_change_def)

lemma stdout_after_run:
  "sys_stdout (snd (starred a e st)) =
     (if open_raises a e = None \<and> repository a \<noteq> [] \<and> truthy (token a)
      then RepoFile else sys_stdout st)"
proof (cases "open_raises a e")
  case None
  then show ?thesis unfolding starred_def
    by (simp add: Let_def case_prod_beta split: sum.splits option.splits)
next
  case (Some x)
  then show ?thesis unfolding starred_def
    by (simp add: case_prod_beta open_output_raised)
qed

lemma run_unopened:
  assumes "open_raises a e = Some x"
  shows "fst (starred a e (fresh fs p)) = Raised x"
    and "pkl (snd (starred a e (fresh fs p))) = p"
    and "files (snd (starred a e (fresh fs p))) = fs"
    and "repo_file (snd (starred a e (fresh fs p))) = []"
    and "calls_of (trace (snd (starred a e (fresh fs p)))) = []"
proof -
  note o = open_output_raised [OF assms, of "fresh fs p"]
  show "fst (starred a e (fresh fs p)) = Raised x"
    unfolding starred_def by (simp add: case_prod_beta o(1))
  show "pkl (snd (starred a e (fresh fs p))) = p"
    unfolding starred_def by (simp add: case_prod_beta o(1))
  show "files (snd (starred a e (fresh fs p))) = fs"
    unfolding starred_def by (simp add: case_prod_beta o(1,2))
  show "repo_file (snd (starred a e (fresh fs p))) = []"
    unfolding starred_def by (simp add: case_prod_beta o(1))
  have "snd (starred a e (fresh fs p)) = snd (open_output a e (fresh fs p))"
    unfolding starred_def by (simp add: case_prod_beta o(1))
  with o(3) show "calls_of (trace (snd (starred a e (fresh fs p)))) = []"
    by (auto simp:)
qed

lemma calls_of_append [simp]: "calls_of (xs @ ys) = calls_of xs @ calls_of ys"
  by (induction xs rule: calls_of.induct) simp_all

lemma calls_of_echo [simp]: "calls_of (map (Echo t) ps) = []"
  by (induction ps) simp_all

lemma calls_of_open [simp]: "calls_of (open_events a e) = []"
  by (simp add: open_events_def)

lemma save_pkl_iff: "save_pkl stored new_dict \<longleftrightarrow> stored \<noteq> Some new_dict"
  by (cases stored) (auto simp: save_pkl_def)

lemma fetch_ok:
  "respond e (trace st) (StarredBy (username a)) = None \<Longrightarrow> iter_error e = None
   \<Longrightarrow> fetch a e st = (Inr (stars e), log (Call (StarredBy (username a))) st)"
  by (simp add: fetch_def)

lemma fetch_forbidden:
  "respond e (trace st) (StarredBy (username a)) = Some ForbiddenError
   \<Longrightarrow> fetch a e st =
       (Inl (Aborted TalkFailed), log (Stderr TalkFailed) (log (Call (StarredBy (username a))) st))"
  by (simp add: fetch_def)

lemma run_forbidden:
  assumes "open_raises a e = None"
      and "repository a \<noteq> [] \<longrightarrow> truthy (token a)"
      and "\<And>tr. respond e tr (StarredBy (username a)) = Some ForbiddenError"
  shows "fst (starred a e (fresh fs p)) = Aborted TalkFailed"
    and "pkl (snd (starred a e (fresh fs p))) = p"
    and "trace (snd (starred a e (fresh fs p))) =
           open_events a e @ [Call (StarredBy (username a)), Stderr TalkFailed]"
    and "files (snd (starred a e (fresh fs p))) =
           (if strip (output_arg a) \<noteq> [] then fs(strip (output_arg a) \<mapsto> []) else fs)"
  using assms unfolding starred_def
  by (auto simp: Let_def case_prod_beta fetch_forbidden)

lemma fetch_iter_error:
  "respond e (trace st) (StarredBy (username a)) = None \<Longrightarrow> iter_error e = Some x
   \<Longrightarrow> fetch a e st = (Inl (Raised x), log (Call (StarredBy (username a))) st)"
  by (simp add: fetch_def)

lemma run_iter_error:
  assumes "open_raises a e = None"
      and "repository a \<noteq> [] \<longrightarrow> truthy (token a)"
      and "\<And>tr. respond e tr (StarredBy (username a)) = None"
      and "iter_error e = Some x"
  shows "fst (starred a e (fresh fs p)) = Raised x"
    and "pkl (snd (starred a e (fresh fs p))) = p"
    and "trace (snd (starred a e (fresh fs p))) =
           open_events a e @ [Call (StarredBy (username a))]"
    and "files (snd (starred a e (fresh fs p))) =
           (if strip (output_arg a) \<noteq> [] then fs(strip (output_arg a) \<mapsto> []) else fs)"
  using assms unfolding starred_def
  by (auto simp: Let_def case_prod_beta fetch_iter_error)

lemma run_not_changed:
  assumes "open_raises a e = None"
      and "truthy (token a)" "repository a \<noteq> []"
      and "\<And>tr. respond e tr (StarredBy (username a)) = None" "iter_error e = None"
      and "p = Some (snapshot_of (stars e))"
  shows "fst (starred a e (fresh fs p)) = Aborted (NotChange (today e))"
    and "pkl (snd (starred a e (fresh fs p))) = p"
    and "trace (snd (starred a e (fresh fs p))) =
           open_events a e @ [Call (StarredBy (username a)), Stderr (NotChange (today e))]"
  using assms unfolding starred_def
  by (simp_all add: Let_def case_prod_beta fetch_ok detect_change_def save_pkl_iff)

lemma run_local_unchanged:
  assumes "open_raises a e = None"
      and "repository a = []"
      and "\<And>tr. respond e tr (StarredBy (username a)) = None" "iter_error e = None"
      and "p = Some (snapshot_of (stars e))"
  shows "fst (starred a e (fresh fs p)) = Finished"
    and "pkl (snd (starred a e (fresh fs p))) = p"
    and "trace (snd (starred a e (fresh fs p))) =
           open_events a e @ [Call (StarredBy (username a))] @
           map (Echo (target_of (output_of a) Console)) (rendered a e)"
  using assms unfolding starred_def
  by (simp_all add: Let_def case_prod_beta fetch_ok detect_change_def save_pkl_iff rendered_def)

lemma run_local_changed:
  assumes "open_raises a e = None"
      and "repository a = []"
      and "\<And>tr. respond e tr (StarredBy (username a)) = None" "iter_error e = None"
      and "p \<noteq> Some (snapshot_of (stars e))"
  shows "fst (starred a e (fresh fs p)) = Finished"
    and "pkl (snd (starred a e (fresh fs p))) = Some (snapshot_of (stars e))"
    and "trace (snd (starred a e (fresh fs p))) =
           open_events a e @ [Call (StarredBy (username a)), Dump (snapshot_of (stars e))] @
           map (Echo (target_of (output_of a) Console)) (rendered a e)"
  using assms unfolding starred_def
  by (simp_all add: Let_def case_prod_beta fetch_ok detect_change_def save_pkl_iff rendered_def)

lemma grows_call: "grows (call e c)" by (simp add: grows_def call_def)
lemma grows_report: "grows (report er)" by (simp add: grows_def report_def)
lemma grows_launch: "grows (\<lambda>st1. (None, if b then log Launch st1 else st1))"
  by (simp add: grows_def)

lemma grows_seq:
  assumes "grows f" "grows g" shows "grows (seq f g)"
  unfolding grows_def
proof
  fix st
  from assms(1) obtain xs where f: "trace (snd (f st)) = trace st @ xs" "filter is_echo xs = []"
    unfolding grows_def by blast
  from assms(2) obtain ys
    where g: "trace (snd (g (snd (f st)))) = trace (snd (f st)) @ ys" "filter is_echo ys = []"
    unfolding grows_def by blast
  show "\<exists>evs. trace (snd (seq f g st)) = trace st @ evs \<and> filter is_echo evs = []"
  proof (cases "fst (f st)")
    case None
    with f g have "trace (snd (seq f g st)) = trace st @ (xs @ ys) \<and> filter is_echo (xs @ ys) = []"
      by (simp add: seq_def case_prod_beta)
    then show ?thesis by blast
  next
    case (Some x)
    with f have "trace (snd (seq f g st)) = trace st @ xs \<and> filter is_echo xs = []"
      by (simp add: seq_def case_prod_beta)
    then show ?thesis by blast
  qed
qed

lemma grows_try:
  assumes "grows f" "grows g" shows "grows (try_except f x g)"
  unfolding grows_def
proof
  fix st
  from assms(1) obtain xs where f: "trace (snd (f st)) = trace st @ xs" "filter is_echo xs = []"
    unfolding grows_def by blast
  from assms(2) obtain ys
    where g: "trace (snd (g (snd (f st)))) = trace (snd (f st)) @ ys" "filter is_echo ys = []"
    unfolding grows_def by blast
  show "\<exists>evs. trace (snd (try_except f x g st)) = trace st @ evs \<and> filter is_echo evs = []"
  proof (cases "fst (f st)")
    case None
    with f have "trace (snd (try_except f x g st)) = trace st @ xs \<and> filter is_echo xs = []"
      by (simp add: try_except_def case_prod_beta)
    then show ?thesis by blast
  next
    case (Some y)
    with f g have "trace (snd (try_except f x g st)) = trace st @ (if y = x then xs @ ys else xs) \<and>
        filter is_echo (if y = x then xs @ ys else xs) = []"
      by (simp add: try_except_def case_prod_beta)
    then show ?thesis by blast
  qed
qed

lemma grows_upload: "grows (upload a e content)"
  unfolding upload_def Let_def
  by (intro grows_seq grows_try grows_call grows_report)

lemma grows_publish:
  "\<exists>evs. trace (snd (publish a e st)) = trace st @ evs \<and> filter is_echo evs = []"
  using grows_seq [OF grows_upload grows_launch, of a e "repo_file st" "launch a"]
  by (simp add: grows_def publish_def)

lemma before_publish_fields [simp]:
  "pkl (before_publish a e fs p) = Some (snapshot_of (stars e))"
  "sys_stdout (before_publish a e fs p) = RepoFile"
  "repo_file (before_publish a e fs p) = rendered a e"
  by (simp_all add: before_publish_def echo_all_repo_file)

lemma before_publish_opened [simp]:
  assumes "open_raises a e = None"
  shows "trace (before_publish a e fs p) =
           open_events a e @ [Call (StarredBy (username a)), Dump (snapshot_of (stars e))] @
           map (Echo ToRepoFile) (rendered a e)"
    and "files (before_publish a e fs p) =
           (if strip (output_arg a) \<noteq> [] then fs(strip (output_arg a) \<mapsto> []) else fs)"
  using assms by (simp_all add: before_publish_def target_of_def)

lemma run_publish_changed:
  assumes "open_raises a e = None"
      and "truthy (token a)" "repository a \<noteq> []"
      and "\<And>tr. respond e tr (StarredBy (username a)) = None" "iter_error e = None"
      and "p \<noteq> Some (snapshot_of (stars e))"
  shows "starred a e (fresh fs p) =
           (case fst (publish a e (before_publish a e fs p)) of
              Some x \<Rightarrow> Raised x | None \<Rightarrow> Finished,
            snd (publish a e (before_publish a e fs p)))"
  using assms unfolding starred_def
  by (simp add: Let_def case_prod_beta fetch_ok detect_change_def save_pkl_iff rendered_def
        before_publish_def split: option.splits)

lemma publish_duplicate:
  assumes "\<And>tr. respond e tr (Repository (username a) (repository a)) = None"
      and "\<And>tr. respond e tr (FileContents (lookup_path e)) = None"
  shows "fst (publish a e st) = None"
    and "trace (snd (publish a e st)) = trace st @ duplicate_events a e"
  using assms
  by (simp_all add: publish_def upload_def seq_def try_except_def call_def report_def Let_def
        lookup_path_def duplicate_events_def py_def)

lemma replace_single: "replace [c] new s = concat (map (\<lambda>x. if x = c then new else [x]) s)"
proof (induction s)
  case Nil show ?case by (simp add: replace.simps)
next
  case (Cons a s) then show ?case by (subst replace.simps) simp
qed

lemma heading_eq:
  "heading language n =
     py ''## '' @ concat (map (\<lambda>c. if c = of_char CHR ''#'' then py ''# #'' else [c]) language) @
     py '' ('' @ str_nat n @ py '') '' @ [10]"
  by (simp add: heading_def py_def replace_single cong: if_cong)

lemma str_nat_1: "str_nat 1 = py ''1''"
  by (subst str_nat.simps) (simp add: py_def)

lemma heading_csharp: "heading (py ''C#'') 1 = py ''## C# # (1) '' @ [10]"
  unfolding heading_eq str_nat_1 by (simp add: py_def)

lemma spec_heading_csharp: "spec_heading (py ''C#'') 1 = py ''## C#  (1) '' @ [10]"
  unfolding spec_heading_def str_nat_1 by (simp add: py_def)

lemma length_info_rows: "length (info_rows rs) = length rs"
  by (simp add: info_rows_def enumerate_eq_zip)

lemma heading_in_section:
  "Text (heading language (length rs)) \<in> set (section_of ty d (language, info_rows rs))"
  by (simp add: section_of_def length_info_rows)

lemma heading_in_document:
  assumes "(language, rs) \<in> set repo_dict"
  shows "Text (heading language (length rs)) \<in> set (document a day repo_dict tot)"
proof -
  from assms have "(language, info_rows rs) \<in> set (sorted_items (map (\<lambda>(language, rs). (language, info_rows rs)) repo_dict))"
    by (force simp: set_sorted_items)
  then have "Text (heading language (length rs)) \<in>
      set (concat (map (section_of (type_arg a) repo_dict)
             (sorted_items (map (\<lambda>(language, rs). (language, info_rows rs)) repo_dict))))"
    using heading_in_section [of language rs "type_arg a" repo_dict] by auto
  then show ?thesis by (simp add: document_def)
qed

lemma ex_args_fields [simp]:
  "username (ex_args r out l) = py ''u''" "truthy (token (ex_args r out l))"
  "repository (ex_args r out l) = py r" "launch (ex_args r out l) = l"
  "output_arg (ex_args r out l) = py out" "sort_arg (ex_args r out l) = Stars"
  by (simp_all add: ex_args_def py_def)

lemma ex_env_fields [simp]:
  "today (ex_env r) = py ''2024-05-01''" "stars (ex_env r) = ex_stars"
  "iter_error (ex_env r) = None" "respond (ex_env r) tr c = r c"
  by (simp_all add: ex_env_def)

lemma ex_opened [simp]: "open_raises a (ex_env r) = None"
  by (simp add: open_raises_def ex_env_def)

lemma ex_refused_fields [simp]:
  "today ex_env_refused = py ''2024-05-01''" "stars ex_env_refused = ex_stars"
  "iter_error ex_env_refused = Some ForbiddenError" "respond ex_env_refused tr c = None"
  "open_raises a ex_env_refused = None"
  by (simp_all add: ex_env_refused_def ex_env_def all_found_def open_raises_def)

lemma ex_open_none [simp]: "open_events (ex_args r [] l) e = []"
  by (simp add: open_events_def py_def strip_def)

lemma ex_strip_readme: "strip (py ''README.md'') = py ''README.md''"
  by (simp add: strip_def isspace_def py_def)

lemma ex_head_readme: "path_head (py ''README.md'') = []"
  by (simp add: path_head_def py_def)

lemma ex_open_readme: "open_events (ex_args r ''README.md'' l) e = [OpenWrite (py ''README.md'')]"
  by (simp add: open_events_def ex_strip_readme ex_head_readme) (simp add: py_def)

lemma ex_unopened:
  "open_raises (ex_args r ''README.md'' l) ex_env_unopened = Some OSError"
  by (simp add: open_raises_def ex_strip_readme ex_head_readme ex_env_unopened_def ex_env_def)
     (simp add: py_def)

lemma quiet_echo_open: "filter is_echo (open_events a e) = []"
  by (simp add: open_events_def)

lemma ex_repo: "py ''stars'' \<noteq> []" by (simp add: py_def)

lemma ex_lookup_path: "lookup_path (ex_env r) = py ''/Archives/README-2024-05-01.md''"
  by (simp add: lookup_path_def py_def)

lemma publish_create:
  assumes "\<And>tr c. respond e tr c = no_repository c"
  shows "fst (publish a e st) = None"
    and "trace (snd (publish a e st)) = trace st @ create_events a e (repo_file st)"
  using assms
  by (simp_all add: publish_def upload_def seq_def try_except_def call_def report_def Let_def
        create_events_def no_repository_def)

lemma run_duplicate:
  assumes "open_raises a e = None"
      and "truthy (token a)" "repository a \<noteq> []"
      and "\<And>tr. respond e tr (StarredBy (username a)) = None" "iter_error e = None"
      and "p \<noteq> Some (snapshot_of (stars e))"
      and "\<And>tr. respond e tr (Repository (username a) (repository a)) = None"
      and "\<And>tr. respond e tr (FileContents (lookup_path e)) = None"
  shows "fst (starred a e (fresh fs p)) = Finished"
    and "trace (snd (starred a e (fresh fs p))) =
           open_events a e @ [Call (StarredBy (username a)), Dump (snapshot_of (stars e))] @
           map (Echo ToRepoFile) (rendered a e) @ duplicate_events a e"
    and "pkl (snd (starred a e (fresh fs p))) = Some (snapshot_of (stars e))"
  by (simp_all add: run_publish_changed [OF assms(1-6)] publish_duplicate [OF assms(7,8)] assms(1))

lemma run_create:
  assumes "open_raises a e = None"
      and "truthy (token a)" "repository a \<noteq> []"
      and "iter_error e = None" "p \<noteq> Some (snapshot_of (stars e))"
      and "\<And>tr c. respond e tr c = no_repository c"
  shows "fst (starred a e (fresh fs p)) = Finished"
    and "trace (snd (starred a e (fresh fs p))) =
           open_events a e @ [Call (StarredBy (username a)), Dump (snapshot_of (stars e))] @
           map (Echo ToRepoFile) (rendered a e) @ create_events a e (rendered a e)"
proof -
  have ok: "\<And>tr. respond e tr (StarredBy (username a)) = None"
    by (simp add: assms(6) no_repository_def)
  note r = run_publish_changed [OF assms(1-3) ok assms(4,5)]
  show "fst (starred a e (fresh fs p)) = Finished"
    by (simp add: r publish_create [OF assms(6)])
  show "trace (snd (starred a e (fresh fs p))) =
           open_events a e @ [Call (StarredBy (username a)), Dump (snapshot_of (stars e))] @
           map (Echo ToRepoFile) (rendered a e) @ create_events a e (rendered a e)"
    by (simp add: r publish_create [OF assms(6)] assms(1))
qed

lemma run_changed:
  assumes "open_raises a e = None"
      and "repository a \<noteq> [] \<longrightarrow> truthy (token a)"
      and "\<And>tr. respond e tr (StarredBy (username a)) = None" "iter_error e = None"
      and "p \<noteq> Some (snapshot_of (stars e))"
  shows "pkl (snd (starred a e (fresh fs p))) = Some (snapshot_of (stars e))"
    and "\<exists>rest. trace (snd (starred a e (fresh fs p))) =
           open_events a e @ [Call (StarredBy (username a)), Dump (snapshot_of (stars e))] @ rest"
proof -
  show "pkl (snd (starred a e (fresh fs p))) = Some (snapshot_of (stars e))"
  proof (cases "repository a = []")
    case True
    from run_local_changed(2) [OF assms(1) True assms(3-5)] show ?thesis .
  next
    case False
    with assms(2) have t: "truthy (token a)" by simp
    show ?thesis by (simp add: run_publish_changed [OF assms(1) t False assms(3-5)])
  qed
  show "\<exists>rest. trace (snd (starred a e (fresh fs p))) =
           open_events a e @ [Call (StarredBy (username a)), Dump (snapshot_of (stars e))] @ rest"
  proof (cases "repository a = []")
    case True
    from run_local_changed(3) [OF assms(1) True assms(3-5)] show ?thesis by blast
  next
    case False
    with assms(2) have t: "truthy (token a)" by simp
    obtain evs where "trace (snd (publish a e (before_publish a e fs p))) =
        trace (before_publish a e fs p) @ evs"
      using grows_publish by blast
    then show ?thesis
      by (simp add: run_publish_changed [OF assms(1) t False assms(3-5)] assms(1))
  qed
qed

text \<open>
  A publishing run whose stars differ from the stored snapshot: the buffer holds the
  rendered document at the end, and every piece of it was echoed to the buffer and
  nothing else was echoed.
\<close>

lemma run_captures:
  assumes "open_raises a e = None"
      and "truthy (token a)" "repository a \<noteq> []"
      and "\<And>tr. respond e tr (StarredBy (username a)) = None" "iter_error e = None"
      and "p \<noteq> Some (snapshot_of (stars e))"
  shows "repo_file (snd (starred a e (fresh fs p))) = rendered a e"
    and "filter is_echo (trace (snd (starred a e (fresh fs p)))) =
           map (Echo ToRepoFile) (rendered a e)"
proof -
  note r = run_publish_changed [OF assms]
  show "repo_file (snd (starred a e (fresh fs p))) = rendered a e"
    by (simp add: r)
  obtain evs where evs: "trace (snd (publish a e (before_publish a e fs p))) =
        trace (before_publish a e fs p) @ evs" "filter is_echo evs = []"
    using grows_publish by blast
  have o: "filter is_echo (open_events a e) = []"
    by (simp add: open_events_def)
  have m: "filter is_echo (map (Echo ToRepoFile) ps) = map (Echo ToRepoFile) ps" for ps
    by (induction ps) simp_all
  from evs o m show "filter is_echo (trace (snd (starred a e (fresh fs p)))) =
           map (Echo ToRepoFile) (rendered a e)"
    by (simp add: r assms(1))
qed

lemma calls_of_duplicate [simp]:
  "calls_of (duplicate_events a e) =
     [Repository (username a) (repository a), FileContents (lookup_path e)]"
  by (simp add: duplicate_events_def)

lemma ex_snapshot_changed: "None \<noteq> Some (snapshot_of (stars e))" by simp

lemma no_dump_open [simp]: "Dump s \<notin> set (open_events a e)"
  by (simp add: open_events_def)

lemma no_dump_echo [simp]: "Dump s \<notin> set (map (Echo t) ps)"
  by (induction ps) simp_all

lemma quiet_open [simp]: "\<not> list_ex renders_or_publishes (open_events a e)"
  by (simp add: open_events_def)

lemma lookup_path_eq: "py ''/Archives/README-'' @ today e @ py ''.md'' = lookup_path e"
  by (simp add: lookup_path_def)

lemma ex_snapshot:
  "snapshot_of ex_stars =
     [(py ''Go'', [(py ''b'', py ''https://github.com/o/b''), (py ''a'', py ''https://github.com/o/a''),
                   (py ''d'', py ''https://github.com/o/d'')]),
      (py ''Others'', [(py ''c'', py ''https://github.com/o/c'')])]"
  by (simp add: snapshot_of_def ex_stars_def ex_languages ex_keys sorted_items_def sorted_py_def)
     (simp add: ex_a_def ex_b_def ex_c_def ex_d_def ex_star_def py_def)

lemma ex_all_found [simp]: "all_found c = None"
  by (simp add: all_found_def)

lemma py_Nil [simp]: "py [] = []"
  by (simp add: py_def)

section \<open>Change detection\<close>

text \<open>
  C1. For a run that reaches the comparison (the output was opened, the fetch
  succeeded; with a repository given, a token is given too): \<open>save_pkl\<close> is false
  exactly when the stored snapshot equals the new one, and is true when no snapshot is
  stored; when it is true the new snapshot is stored; when the snapshot is unchanged and
  a repository is given the run aborts with the no-change error: its effects are the
  opening of the output, the fetch and the error, so nothing is rendered, published or
  written to the snapshot; when it is unchanged and no repository is given the snapshot
  is not written and the document is rendered.
\<close>

theorem change_detection:
  assumes "open_raises a e = None"
      and "repository a \<noteq> [] \<longrightarrow> truthy (token a)"
      and "\<And>tr. respond e tr (StarredBy (username a)) = None"
      and "iter_error e = None"
  shows "(save_pkl p (snapshot_of (stars e)) \<longleftrightarrow> p \<noteq> Some (snapshot_of (stars e)))
     \<and> save_pkl None (snapshot_of (stars e))
     \<and> (p \<noteq> Some (snapshot_of (stars e)) \<longrightarrow>
          pkl (snd (starred a e (fresh fs p))) = Some (snapshot_of (stars e)) \<and>
          Dump (snapshot_of (stars e)) \<in> set (trace (snd (starred a e (fresh fs p)))))
     \<and> (p = Some (snapshot_of (stars e)) \<and> repository a \<noteq> [] \<longrightarrow>
          fst (starred a e (fresh fs p)) = Aborted (NotChange (today e)) \<and>
          pkl (snd (starred a e (fresh fs p))) = p \<and>
          trace (snd (starred a e (fresh fs p))) =
            open_events a e @ [Call (StarredBy (username a)), Stderr (NotChange (today e))])
     \<and> (p = Some (snapshot_of (stars e)) \<and> repository a = [] \<longrightarrow>
          fst (starred a e (fresh fs p)) = Finished \<and>
          pkl (snd (starred a e (fresh fs p))) = p \<and>
          (\<forall>s. Dump s \<notin> set (trace (snd (starred a e (fresh fs p))))) \<and>
          trace (snd (starred a e (fresh fs p))) =
            open_events a e @ [Call (StarredBy (username a))] @
            map (Echo (target_of (output_of a) Console)) (rendered a e))"
proof (intro conjI impI)
  show "save_pkl p (snapshot_of (stars e)) \<longleftrightarrow> p \<noteq> Some (snapshot_of (stars e))"
    by (rule save_pkl_iff)
  show "save_pkl None (snapshot_of (stars e))" by (simp add: save_pkl_iff)
next
  assume c: "p \<noteq> Some (snapshot_of (stars e))"
  from run_changed(1) [OF assms c]
  show "pkl (snd (starred a e (fresh fs p))) = Some (snapshot_of (stars e))" .
  from run_changed(2) [OF assms c, of fs]
  show "Dump (snapshot_of (stars e)) \<in> set (trace (snd (starred a e (fresh fs p))))" by auto
next
  assume "p = Some (snapshot_of (stars e)) \<and> repository a \<noteq> []"
  then have u: "p = Some (snapshot_of (stars e))" and r: "repository a \<noteq> []" by simp_all
  from r assms(2) have t: "truthy (token a)" by simp
  note n = run_not_changed [OF assms(1) t r assms(3,4) u, of fs]
  from n(1) show "fst (starred a e (fresh fs p)) = Aborted (NotChange (today e))" .
  from n(2) show "pkl (snd (starred a e (fresh fs p))) = p" .
  from n(3) show "trace (snd (starred a e (fresh fs p))) =
            open_events a e @ [Call (StarredBy (username a)), Stderr (NotChange (today e))]" .
next
  assume "p = Some (snapshot_of (stars e)) \<and> repository a = []"
  then have u: "p = Some (snapshot_of (stars e))" and r: "repository a = []" by simp_all
  note n = run_local_unchanged [OF assms(1) r assms(3,4) u, of fs]
  from n(1) show "fst (starred a e (fresh fs p)) = Finished" .
  from n(2) show "pkl (snd (starred a e (fresh fs p))) = p" .
  from n(3) show "trace (snd (starred a e (fresh fs p))) =
            open_events a e @ [Call (StarredBy (username a))] @
            map (Echo (target_of (output_of a) Console)) (rendered a e)" .
  from n(3) show "\<forall>s. Dump s \<notin> set (trace (snd (starred a e (fresh fs p))))" by auto
qed

theorem change_detection_witness:
  "open_raises (ex_args [] [] False) (ex_env all_found) = None
   \<and> open_raises (ex_args ''stars'' [] False) (ex_env all_found) = None
   \<and> truthy (token (ex_args [] [] False)) \<and> truthy (token (ex_args ''stars'' [] False))
   \<and> respond (ex_env all_found) [] (StarredBy (username (ex_args [] [] False))) = None
   \<and> iter_error (ex_env all_found) = None
   \<and> None \<noteq> Some (snapshot_of (stars (ex_env all_found)))
   \<and> pkl (snd (starred (ex_args [] [] False) (ex_env all_found) (fresh Map.empty None)))
       = Some (snapshot_of ex_stars)
   \<and> Dump (snapshot_of ex_stars)
       \<in> set (trace (snd (starred (ex_args [] [] False) (ex_env all_found) (fresh Map.empty None))))
   \<and> repository (ex_args ''stars'' [] False) \<noteq> []
   \<and> fst (starred (ex_args ''stars'' [] False) (ex_env all_found)
             (fresh Map.empty (Some (snapshot_of ex_stars))))
       = Aborted (NotChange (py ''2024-05-01''))
   \<and> trace (snd (starred (ex_args ''stars'' [] False) (ex_env all_found)
                    (fresh Map.empty (Some (snapshot_of ex_stars)))))
       = [Call (StarredBy (py ''u'')), Stderr (NotChange (py ''2024-05-01''))]
   \<and> repository (ex_args [] [] False) = []
   \<and> fst (starred (ex_args [] [] False) (ex_env all_found)
             (fresh Map.empty (Some (snapshot_of ex_stars)))) = Finished
   \<and> pkl (snd (starred (ex_args [] [] False) (ex_env all_found)
                  (fresh Map.empty (Some (snapshot_of ex_stars)))))
       = Some (snapshot_of ex_stars)"
proof -
  have ol: "open_raises (ex_args [] [] False) (ex_env all_found) = None" by simp
  have orp: "open_raises (ex_args ''stars'' [] False) (ex_env all_found) = None" by simp
  have l: "repository (ex_args [] [] False) \<noteq> [] \<longrightarrow> truthy (token (ex_args [] [] False))"
    by simp
  have r: "repository (ex_args ''stars'' [] False) \<noteq> [] \<longrightarrow> truthy (token (ex_args ''stars'' [] False))"
    by simp
  have okl: "\<And>tr. respond (ex_env all_found) tr (StarredBy (username (ex_args [] [] False))) = None"
    by simp
  have okr: "\<And>tr. respond (ex_env all_found) tr (StarredBy (username (ex_args ''stars'' [] False))) = None"
    by simp
  have it: "iter_error (ex_env all_found) = None" by simp
  note first = change_detection [OF ol l okl it, where p = None and fs = Map.empty]
  note again = change_detection [OF orp r okr it, where p = "Some (snapshot_of ex_stars)" and fs = Map.empty]
  note local = change_detection [OF ol l okl it, where p = "Some (snapshot_of ex_stars)" and fs = Map.empty]
  have a: "pkl (snd (starred (ex_args [] [] False) (ex_env all_found) (fresh Map.empty None)))
             = Some (snapshot_of ex_stars) \<and>
           Dump (snapshot_of ex_stars)
             \<in> set (trace (snd (starred (ex_args [] [] False) (ex_env all_found) (fresh Map.empty None))))"
    using first by simp
  have b: "fst (starred (ex_args ''stars'' [] False) (ex_env all_found)
             (fresh Map.empty (Some (snapshot_of ex_stars))))
             = Aborted (NotChange (py ''2024-05-01'')) \<and>
           trace (snd (starred (ex_args ''stars'' [] False) (ex_env all_found)
                    (fresh Map.empty (Some (snapshot_of ex_stars)))))
             = [Call (StarredBy (py ''u'')), Stderr (NotChange (py ''2024-05-01''))]"
    using again by (simp add: ex_repo)
  have c: "fst (starred (ex_args [] [] False) (ex_env all_found)
             (fresh Map.empty (Some (snapshot_of ex_stars)))) = Finished \<and>
           pkl (snd (starred (ex_args [] [] False) (ex_env all_found)
                  (fresh Map.empty (Some (snapshot_of ex_stars)))))
             = Some (snapshot_of ex_stars)"
    using local by simp
  from a b c show ?thesis by (simp add: ex_repo)
qed

section \<open>Sort correctness\<close>

text \<open>
  C2. After aggregation, in every language group: with sort mode \<open>Name\<close> the names are
  in non-decreasing lexicographic order; with \<open>Stars\<close> the star counts are in
  non-increasing order and the records of any one star count are in their fetch order;
  with \<open>Date\<close> the fetch indices are in non-decreasing order.
\<close>

theorem sort_correctness:
  "\<forall>(k, rs) \<in> set (fst (aggregate ss m)).
     (m = Name \<longrightarrow> sorted (map r_name rs)) \<and>
     (m = Stars \<longrightarrow> sorted (rev (map r_stars rs)) \<and>
        (\<forall>c. sorted (map r_order (filter (\<lambda>r. r_stars r = c) rs)))) \<and>
     (m = Date \<longrightarrow> sorted (map r_order rs))"
proof (intro ballI, clarify)
  fix k rs assume "(k, rs) \<in> set (fst (aggregate ss m))"
  then obtain rs0 where h: "(k, rs0) \<in> set (fst (collect ss 0 [] []))" "rs = sort_one m rs0"
    by (auto simp: in_groups_aggregate)
  have "\<forall>(k, vs) \<in> set (fst (collect ss 0 [] [])). sorted (map r_order vs)"
    by (rule ascending_collect) simp
  with h(1) have asc: "sorted (map r_order rs0)" by blast
  have stable: "sorted (map r_order (filter (\<lambda>r. r_stars r = c) (sorted_py r_stars True rs0)))" for c
    using asc by (simp add: sorted_py_stable sorted_filter)
  show "(m = Name \<longrightarrow> sorted (map r_name rs)) \<and>
     (m = Stars \<longrightarrow> sorted (rev (map r_stars rs)) \<and>
        (\<forall>c. sorted (map r_order (filter (\<lambda>r. r_stars r = c) rs)))) \<and>
     (m = Date \<longrightarrow> sorted (map r_order rs))"
    using stable by (simp add: h(2) sort_one_def sorted_py_ascending sorted_py_descending)
qed

theorem sort_correctness_witness:
  "(py ''Go'', [entry ex_b 0, entry ex_d 2, entry ex_a 1]) \<in> set (fst (aggregate ex_stars Stars))
   \<and> sorted (rev (map r_stars [entry ex_b 0, entry ex_d 2, entry ex_a 1]))
   \<and> sorted (map r_order (filter (\<lambda>r. r_stars r = 20) [entry ex_b 0, entry ex_d 2, entry ex_a 1]))
   \<and> (py ''Go'', [entry ex_a 1, entry ex_b 0, entry ex_d 2]) \<in> set (fst (aggregate ex_stars Name))
   \<and> sorted (map r_name [entry ex_a 1, entry ex_b 0, entry ex_d 2])
   \<and> (py ''Go'', [entry ex_b 0, entry ex_a 1, entry ex_d 2]) \<in> set (fst (aggregate ex_stars Date))
   \<and> sorted (map r_order [entry ex_b 0, entry ex_a 1, entry ex_d 2])"
proof -
  have s: "(py ''Go'', [entry ex_b 0, entry ex_d 2, entry ex_a 1]) \<in> set (fst (aggregate ex_stars Stars))"
    by (simp add: ex_aggregate_stars)
  have n: "(py ''Go'', [entry ex_a 1, entry ex_b 0, entry ex_d 2]) \<in> set (fst (aggregate ex_stars Name))"
    by (simp add: ex_aggregate_name)
  have d: "(py ''Go'', [entry ex_b 0, entry ex_a 1, entry ex_d 2]) \<in> set (fst (aggregate ex_stars Date))"
    by (simp add: ex_aggregate_date)
  from s n d sort_correctness [of ex_stars Stars] sort_correctness [of ex_stars Name]
    sort_correctness [of ex_stars Date]
  show ?thesis by fast
qed

section \<open>Grouping completeness\<close>

text \<open>
  C3. The keys of the groups are distinct; the record of every fetched star is in the
  group of its language key, in no group of another key, and occurs once in all groups
  together; the groups together are the fetched records as a multiset; the total is the
  number of fetched stars; no star gives no group and total 0. The language key is
  \<open>Others\<close> for a star without language and the language itself when it is a
  non-empty string.
\<close>

theorem grouping_completeness:
  "distinct (map fst (fst (aggregate ss m)))
   \<and> (\<forall>i < length ss.
         (\<exists>rs. (language_of (ss ! i), rs) \<in> set (fst (aggregate ss m)) \<and> entry (ss ! i) i \<in> set rs) \<and>
         (\<forall>(k, rs) \<in> set (fst (aggregate ss m)). entry (ss ! i) i \<in> set rs \<longrightarrow> k = language_of (ss ! i)) \<and>
         count (mset (concat (map snd (fst (aggregate ss m))))) (entry (ss ! i) i) = 1)
   \<and> mset (concat (map snd (fst (aggregate ss m)))) = mset (map2 entry ss [0 ..< length ss])
   \<and> snd (aggregate ss m) = length ss
   \<and> aggregate [] m = ([], 0)
   \<and> (s_language s = None \<longrightarrow> language_of s = py ''Others'')
   \<and> (\<forall>l. s_language s = Some l \<and> l \<noteq> [] \<longrightarrow> language_of s = l)"
proof -
  define groups where "groups = fst (aggregate ss m)"
  have ms: "mset (concat (map snd groups)) = mset (map2 entry ss [0 ..< length ss])"
    unfolding groups_def by (rule mset_aggregate)
  have empty: "aggregate [] m = ([], 0)"
    by (simp add: aggregate_def sorted_items_def sorted_py_def)
  have others: "s_language s = None \<longrightarrow> language_of s = py ''Others''"
    by (simp add: language_of_def)
  have named: "\<forall>l. s_language s = Some l \<and> l \<noteq> [] \<longrightarrow> language_of s = l"
    by (simp add: language_of_def)
  have each: "\<forall>i < length ss.
           (\<exists>rs. (language_of (ss ! i), rs) \<in> set groups \<and> entry (ss ! i) i \<in> set rs) \<and>
           (\<forall>(k, rs) \<in> set groups. entry (ss ! i) i \<in> set rs \<longrightarrow> k = language_of (ss ! i)) \<and>
           count (mset (concat (map snd groups))) (entry (ss ! i) i) = 1"
  proof (intro allI impI)
    fix i assume i: "i < length ss"
    let ?e = "entry (ss ! i) i"
    have ord: "r_order ?e = i" by (simp add: entry_def)
    have key: "k = language_of (ss ! i)" if "(k, rs) \<in> set groups" "?e \<in> set rs" for k rs
      using entries_aggregate [OF that(1) [unfolded groups_def] that(2)] ord by simp
    from entry_in_input [OF i] have "?e \<in># mset (map2 entry ss [0 ..< length ss])" by simp
    with ms have "?e \<in> set (concat (map snd groups))"
      by (metis set_mset_mset)
    then obtain k rs where g: "(k, rs) \<in> set groups" "?e \<in> set rs" by auto
    from key [OF g] g have ex: "\<exists>rs. (language_of (ss ! i), rs) \<in> set groups \<and> ?e \<in> set rs"
      by blast
    have "count (mset (map2 entry ss [0 ..< length ss])) ?e = 1"
      using distinct_input [of ss] entry_in_input [OF i]
      by (simp add: distinct_count_atmost_1)
    with ms have cnt: "count (mset (concat (map snd groups))) ?e = 1" by simp
    from ex key cnt show "(\<exists>rs. (language_of (ss ! i), rs) \<in> set groups \<and> ?e \<in> set rs) \<and>
           (\<forall>(k, rs) \<in> set groups. ?e \<in> set rs \<longrightarrow> k = language_of (ss ! i)) \<and>
           count (mset (concat (map snd groups))) ?e = 1"
      by blast
  qed
  note parts = distinct_aggregate [of ss m] each [unfolded groups_def] ms [unfolded groups_def]
    total_aggregate [of ss m] empty others named
  show ?thesis by (intro conjI) (rule parts)+
qed

theorem grouping_completeness_witness:
  "(1::nat) < length ex_stars
   \<and> (\<exists>rs. (language_of (ex_stars ! 1), rs) \<in> set (fst (aggregate ex_stars Stars)) \<and>
            entry (ex_stars ! 1) 1 \<in> set rs)
   \<and> (py ''Go'', [entry ex_b 0, entry ex_d 2, entry ex_a 1]) \<in> set (fst (aggregate ex_stars Stars))
   \<and> entry (ex_stars ! 1) 1 \<in> set [entry ex_b 0, entry ex_d 2, entry ex_a 1]
   \<and> py ''Go'' = language_of (ex_stars ! 1)
   \<and> snd (aggregate ex_stars Stars) = 4
   \<and> s_language ex_c = None \<and> language_of ex_c = py ''Others''
   \<and> s_language ex_a = Some (py ''Go'') \<and> py ''Go'' \<noteq> [] \<and> language_of ex_a = py ''Go''"
proof -
  have i: "(1::nat) < length ex_stars" by (simp add: ex_stars_def)
  have s: "(py ''Go'', [entry ex_b 0, entry ex_d 2, entry ex_a 1]) \<in> set (fst (aggregate ex_stars Stars))"
    by (simp add: ex_aggregate_stars)
  have m: "entry (ex_stars ! 1) 1 \<in> set [entry ex_b 0, entry ex_d 2, entry ex_a 1]"
    by (simp add: ex_stars_def)
  have c: "s_language ex_c = None" by (simp add: ex_c_def ex_star_def)
  have a: "s_language ex_a = Some (py ''Go'')" "py ''Go'' \<noteq> []"
    by (simp_all add: ex_a_def ex_star_def py_def)
  have len: "length ex_stars = 4" by (simp add: ex_stars_def)
  note g = grouping_completeness [of ex_stars Stars]
  from g [of ex_c] c have oc: "language_of ex_c = py ''Others''" by fast
  from g [of ex_a] a have oa: "language_of ex_a = py ''Go''" by fast
  from g [of ex_c] i s m
  have k: "(\<exists>rs. (language_of (ex_stars ! 1), rs) \<in> set (fst (aggregate ex_stars Stars)) \<and>
            entry (ex_stars ! 1) 1 \<in> set rs) \<and> py ''Go'' = language_of (ex_stars ! 1)"
    by fast
  from g [of ex_c] len have t: "snd (aggregate ex_stars Stars) = 4" by simp
  from i k s m t c oc a oa show ?thesis by simp
qed

section \<open>Description sanitization\<close>

text \<open>
  C4. The description stored in every record of every group is the sanitization of the
  star's description as the specification words it; an absent description gives the
  empty string; \<open>a<b>\<close>, newline, \<open>c\<close> gives \<open>a&lt;b&gt;c\<close>, also with white
  space around it. The last step is a strip in the plain sense: the stored description
  lies inside the escaped text without its newlines, between a run of white space
  before it and a run of white space after it, and, when not empty, it neither starts
  nor ends with white space.
\<close>

theorem description_sanitization:
  "(\<forall>(k, rs) \<in> set (fst (aggregate ss m)). \<forall>r \<in> set rs.
      r_order r < length ss \<and> r_description r = spec_sanitize (s_description (ss ! r_order r)))
   \<and> r_description (entry s n) = spec_sanitize (s_description s)
   \<and> spec_sanitize None = []
   \<and> spec_sanitize (Some (py ''a<b>'' @ [10] @ py ''c'')) = py ''a&lt;b&gt;c''
   \<and> spec_sanitize (Some ([32, 9] @ py ''a<b>'' @ [10] @ py ''c'' @ [13, 32])) = py ''a&lt;b&gt;c''
   \<and> (\<forall>d. s_description s = Some d \<longrightarrow>
         (\<exists>pre post. filter (\<lambda>c. c \<noteq> 10) (spec_escape d) = pre @ r_description (entry s n) @ post
                      \<and> list_all isspace pre \<and> list_all isspace post)
         \<and> (r_description (entry s n) = []
              \<or> \<not> isspace (hd (r_description (entry s n)))
                \<and> \<not> isspace (last (r_description (entry s n)))))"
proof (intro conjI)
  show "\<forall>(k, rs) \<in> set (fst (aggregate ss m)). \<forall>r \<in> set rs.
      r_order r < length ss \<and> r_description r = spec_sanitize (s_description (ss ! r_order r))"
  proof (intro ballI, clarify)
    fix k rs r assume "(k, rs) \<in> set (fst (aggregate ss m))" "r \<in> set rs"
    from entries_aggregate [OF this]
    have h: "r_order r < length ss" "r = entry (ss ! r_order r) (r_order r)" by simp_all
    from h(2) have "r_description r = r_description (entry (ss ! r_order r) (r_order r))" by simp
    with h(1) show "r_order r < length ss \<and> r_description r = spec_sanitize (s_description (ss ! r_order r))"
      by (simp add: entry_description)
  qed
  show "r_description (entry s n) = spec_sanitize (s_description s)" by (rule entry_description)
  show "spec_sanitize None = []" by (simp add: spec_sanitize_def)
  show "spec_sanitize (Some (py ''a<b>'' @ [10] @ py ''c'')) = py ''a&lt;b&gt;c''"
    by (simp add: spec_sanitize_def spec_escape_def spec_strip_def isspace_def py_def)
  show "spec_sanitize (Some ([32, 9] @ py ''a<b>'' @ [10] @ py ''c'' @ [13, 32])) = py ''a&lt;b&gt;c''"
    by (simp add: spec_sanitize_def spec_escape_def spec_strip_def isspace_def py_def)
  show "\<forall>d. s_description s = Some d \<longrightarrow>
         (\<exists>pre post. filter (\<lambda>c. c \<noteq> 10) (spec_escape d) = pre @ r_description (entry s n) @ post
                      \<and> list_all isspace pre \<and> list_all isspace post)
         \<and> (r_description (entry s n) = []
              \<or> \<not> isspace (hd (r_description (entry s n)))
                \<and> \<not> isspace (last (r_description (entry s n))))"
  proof (intro allI impI)
    fix d assume "s_description s = Some d"
    then have e: "r_description (entry s n) = strip (filter (\<lambda>c. c \<noteq> 10) (spec_escape d))"
      by (rule entry_description_Some)
    show "(\<exists>pre post. filter (\<lambda>c. c \<noteq> 10) (spec_escape d) = pre @ r_description (entry s n) @ post
                      \<and> list_all isspace pre \<and> list_all isspace post)
         \<and> (r_description (entry s n) = []
              \<or> \<not> isspace (hd (r_description (entry s n)))
                \<and> \<not> isspace (last (r_description (entry s n))))"
      unfolding e
      using strip_inside [of "filter (\<lambda>c. c \<noteq> 10) (spec_escape d)"]
        strip_ends [of "filter (\<lambda>c. c \<noteq> 10) (spec_escape d)"]
      by blast
  qed
qed

theorem description_sanitization_witness:
  "(py ''Go'', [entry ex_b 0, entry ex_d 2, entry ex_a 1]) \<in> set (fst (aggregate ex_stars Stars))
   \<and> entry ex_b 0 \<in> set [entry ex_b 0, entry ex_d 2, entry ex_a 1]
   \<and> r_order (entry ex_b 0) < length ex_stars
   \<and> s_description ex_b = Some ([9, 32] @ py ''a<b> c'' @ [32, 13])
   \<and> r_description (entry ex_b 0) = py ''a&lt;b&gt; c''
   \<and> \<not> isspace (hd (r_description (entry ex_b 0)))
   \<and> \<not> isspace (last (r_description (entry ex_b 0)))"
proof -
  have s: "(py ''Go'', [entry ex_b 0, entry ex_d 2, entry ex_a 1]) \<in> set (fst (aggregate ex_stars Stars))"
    by (simp add: ex_aggregate_stars)
  have m: "entry ex_b 0 \<in> set [entry ex_b 0, entry ex_d 2, entry ex_a 1]" by simp
  have d: "s_description ex_b = Some ([9, 32] @ py ''a<b> c'' @ [32, 13])"
    by (simp add: ex_b_def ex_star_def py_def)
  have v: "spec_sanitize (s_description (ex_stars ! r_order (entry ex_b 0))) = py ''a&lt;b&gt; c''"
    by (simp add: ex_stars_def ex_b_def ex_star_def spec_sanitize_def spec_escape_def spec_strip_def
          isspace_def py_def)
  have ne: "py ''a&lt;b&gt; c'' \<noteq> []" by (simp add: py_def)
  note t = description_sanitization [of ex_stars Stars ex_b 0]
  from t s m
  have "r_order (entry ex_b 0) < length ex_stars \<and>
        r_description (entry ex_b 0) = spec_sanitize (s_description (ex_stars ! r_order (entry ex_b 0)))"
    by fast
  with v have o: "r_order (entry ex_b 0) < length ex_stars" and r: "r_description (entry ex_b 0) = py ''a&lt;b&gt; c''"
    by simp_all
  from t d have "r_description (entry ex_b 0) = []
      \<or> \<not> isspace (hd (r_description (entry ex_b 0))) \<and> \<not> isspace (last (r_description (entry ex_b 0)))"
    by blast
  with r ne have e: "\<not> isspace (hd (r_description (entry ex_b 0)))"
      "\<not> isspace (last (r_description (entry ex_b 0)))"
    by simp_all
  note parts = s m o d r e
  show ?thesis by (intro conjI) (rule parts)+
qed

section \<open>Authorization failure\<close>

text \<open>
  C5, as stated, fails: with \<open>--output README.md\<close> naming a file that holds text and
  a credential the remote API refuses, which the client finds out while the loop
  iterates the stars, the run ends with the exception, and the file is empty afterwards.
\<close>

theorem authorization_failure_counterexample:
  "fst (starred (ex_args [] ''README.md'' False) ex_env_refused (fresh ex_files None))
     = Raised ForbiddenError
   \<and> trace (snd (starred (ex_args [] ''README.md'' False) ex_env_refused (fresh ex_files None)))
       = [OpenWrite (py ''README.md''), Call (StarredBy (py ''u''))]
   \<and> files (snd (starred (ex_args [] ''README.md'' False) ex_env_refused (fresh ex_files None)))
        (py ''README.md'') \<noteq> ex_files (py ''README.md'')"
proof -
  note r = run_iter_error [where a = "ex_args [] ''README.md'' False" and e = ex_env_refused
      and x = ForbiddenError and fs = ex_files and p = None]
  have 1: "fst (starred (ex_args [] ''README.md'' False) ex_env_refused (fresh ex_files None))
     = Raised ForbiddenError"
    by (rule r(1)) simp_all
  have 2: "trace (snd (starred (ex_args [] ''README.md'' False) ex_env_refused (fresh ex_files None)))
       = open_events (ex_args [] ''README.md'' False) ex_env_refused @
         [Call (StarredBy (username (ex_args [] ''README.md'' False)))]"
    by (rule r(3)) simp_all
  have 3: "files (snd (starred (ex_args [] ''README.md'' False) ex_env_refused (fresh ex_files None))) =
       (if strip (output_arg (ex_args [] ''README.md'' False)) \<noteq> []
        then ex_files(strip (output_arg (ex_args [] ''README.md'' False)) \<mapsto> []) else ex_files)"
    by (rule r(4)) simp_all
  from 1 2 3 show ?thesis
    by (simp add: ex_strip_readme ex_open_readme ex_files_def) (simp add: py_def)
qed

text \<open>
  C5, amended. When the remote API refuses the credential and the output has been
  opened, whether \<open>ForbiddenError\<close> is raised by the call for the stars or while the
  loop iterates them, the run ends there, with the reported error or with the
  exception: nothing is rendered, the snapshot is not written, and the only remote call
  is the one for the stars. A non-blank \<open>--output\<close> path has been opened for writing
  before, so the file exists and is empty, whatever it held.
\<close>

theorem authorization_failure:
  assumes "open_raises a e = None"
      and "repository a \<noteq> [] \<longrightarrow> truthy (token a)"
      and "(\<forall>tr. respond e tr (StarredBy (username a)) = Some ForbiddenError)
           \<or> ((\<forall>tr. respond e tr (StarredBy (username a)) = None) \<and> iter_error e = Some ForbiddenError)"
  shows "(fst (starred a e (fresh fs p)) = Aborted TalkFailed
          \<or> fst (starred a e (fresh fs p)) = Raised ForbiddenError)
     \<and> pkl (snd (starred a e (fresh fs p))) = p
     \<and> (\<forall>s. Dump s \<notin> set (trace (snd (starred a e (fresh fs p)))))
     \<and> filter is_echo (trace (snd (starred a e (fresh fs p)))) = []
     \<and> calls_of (trace (snd (starred a e (fresh fs p)))) = [StarredBy (username a)]
     \<and> files (snd (starred a e (fresh fs p))) =
         (if strip (output_arg a) \<noteq> [] then fs(strip (output_arg a) \<mapsto> []) else fs)"
  using assms(3)
proof
  assume "\<forall>tr. respond e tr (StarredBy (username a)) = Some ForbiddenError"
  then have f: "\<And>tr. respond e tr (StarredBy (username a)) = Some ForbiddenError" by blast
  note r = run_forbidden [OF assms(1,2) f, of fs p]
  from r show ?thesis by (simp add: quiet_echo_open)
next
  assume "(\<forall>tr. respond e tr (StarredBy (username a)) = None) \<and> iter_error e = Some ForbiddenError"
  then have f: "\<And>tr. respond e tr (StarredBy (username a)) = None"
    and i: "iter_error e = Some ForbiddenError" by blast+
  note r = run_iter_error [OF assms(1,2) f i, of fs p]
  from r show ?thesis by (simp add: quiet_echo_open)
qed

theorem authorization_failure_witness:
  "open_raises (ex_args [] ''README.md'' False) ex_env_refused = None
   \<and> truthy (token (ex_args [] ''README.md'' False))
   \<and> respond ex_env_refused [] (StarredBy (username (ex_args [] ''README.md'' False))) = None
   \<and> iter_error ex_env_refused = Some ForbiddenError
   \<and> fst (starred (ex_args [] ''README.md'' False) ex_env_refused (fresh ex_files None))
       \<noteq> Finished
   \<and> pkl (snd (starred (ex_args [] ''README.md'' False) ex_env_refused (fresh ex_files None)))
       = None
   \<and> calls_of (trace (snd (starred (ex_args [] ''README.md'' False) ex_env_refused (fresh ex_files None))))
       = [StarredBy (py ''u'')]
   \<and> files (snd (starred (ex_args [] ''README.md'' False) ex_env_refused (fresh ex_files None)))
        (py ''README.md'') = Some []"
proof -
  have o: "open_raises (ex_args [] ''README.md'' False) ex_env_refused = None" by simp
  have t: "repository (ex_args [] ''README.md'' False) \<noteq> [] \<longrightarrow>
           truthy (token (ex_args [] ''README.md'' False))" by simp
  have f: "\<forall>tr. respond ex_env_refused tr (StarredBy (username (ex_args [] ''README.md'' False))) = None"
    by simp
  have i: "iter_error ex_env_refused = Some ForbiddenError" by simp
  from f i have h: "(\<forall>tr. respond ex_env_refused tr (StarredBy (username (ex_args [] ''README.md'' False)))
                      = Some ForbiddenError)
           \<or> ((\<forall>tr. respond ex_env_refused tr (StarredBy (username (ex_args [] ''README.md'' False))) = None)
              \<and> iter_error ex_env_refused = Some ForbiddenError)" by blast
  note w = authorization_failure [OF o t h, of ex_files None]
  from w have 1: "fst (starred (ex_args [] ''README.md'' False) ex_env_refused (fresh ex_files None))
       \<noteq> Finished" by auto
  from w have 2: "pkl (snd (starred (ex_args [] ''README.md'' False) ex_env_refused (fresh ex_files None)))
       = None" by blast
  from w have 3: "calls_of (trace (snd (starred (ex_args [] ''README.md'' False) ex_env_refused (fresh ex_files None))))
       = [StarredBy (py ''u'')]" by simp
  from w have 4: "files (snd (starred (ex_args [] ''README.md'' False) ex_env_refused (fresh ex_files None)))
        (py ''README.md'') = Some []" by (simp add: ex_strip_readme) (simp add: py_def)
  have tk: "truthy (token (ex_args [] ''README.md'' False))" by simp
  from f have f0: "respond ex_env_refused [] (StarredBy (username (ex_args [] ''README.md'' False))) = None"
    by blast
  note parts = o tk f0 i 1 2 3 4
  show ?thesis by (intro conjI) (rule parts)+
qed

section \<open>Redirection of the standard output\<close>

text \<open>
  C6, as stated, fails: after a publishing run that creates the repository and
  finishes, \<open>sys.stdout\<close> is not what it was at the start.
\<close>

theorem stdout_restored_counterexample:
  "fst (starred (ex_args ''stars'' [] False) (ex_env no_repository) (fresh Map.empty None)) = Finished
   \<and> sys_stdout (snd (starred (ex_args ''stars'' [] False) (ex_env no_repository) (fresh Map.empty None)))
       \<noteq> sys_stdout (fresh Map.empty None)"
proof -
  have "fst (starred (ex_args ''stars'' [] False) (ex_env no_repository) (fresh Map.empty None)) = Finished"
    by (rule run_create(1)) (simp_all add: ex_repo)
  then show ?thesis by (simp add: stdout_after_run ex_repo)
qed

text \<open>
  C6, amended. With a repository and a token given, and the output opened without an
  exception, \<open>sys.stdout\<close> is redirected to the buffer and refers to it at the end of
  the run, however the run ends; in every other run, also in one that raises while it
  opens the output, \<open>sys.stdout\<close> is left as it was. When such a run gets to render
  (the fetch succeeded and the stars differ from the stored snapshot), the buffer holds
  the rendered document at the end, and the pieces of the document, echoed to the
  buffer, are all that was echoed.
\<close>

theorem stdout_not_restored:
  "sys_stdout (snd (starred a e (fresh fs p))) =
     (if open_raises a e = None \<and> repository a \<noteq> [] \<and> truthy (token a) then RepoFile else Console)
   \<and> (open_raises a e = None \<and> truthy (token a) \<and> repository a \<noteq> []
        \<and> (\<forall>tr. respond e tr (StarredBy (username a)) = None) \<and> iter_error e = None
        \<and> p \<noteq> Some (snapshot_of (stars e)) \<longrightarrow>
      repo_file (snd (starred a e (fresh fs p))) = rendered a e
      \<and> filter is_echo (trace (snd (starred a e (fresh fs p)))) =
          map (Echo ToRepoFile) (rendered a e))"
proof (intro conjI impI)
  show "sys_stdout (snd (starred a e (fresh fs p))) =
     (if open_raises a e = None \<and> repository a \<noteq> [] \<and> truthy (token a) then RepoFile else Console)"
    by (simp add: stdout_after_run)
next
  assume h: "open_raises a e = None \<and> truthy (token a) \<and> repository a \<noteq> []
        \<and> (\<forall>tr. respond e tr (StarredBy (username a)) = None) \<and> iter_error e = None
        \<and> p \<noteq> Some (snapshot_of (stars e))"
  then have ok: "\<And>tr. respond e tr (StarredBy (username a)) = None" by blast
  from h have o: "open_raises a e = None" and t: "truthy (token a)" and r: "repository a \<noteq> []"
    and i: "iter_error e = None" and c: "p \<noteq> Some (snapshot_of (stars e))" by blast+
  note k = run_captures [OF o t r ok i c, of fs]
  from k(1) show "repo_file (snd (starred a e (fresh fs p))) = rendered a e" .
  from k(2) show "filter is_echo (trace (snd (starred a e (fresh fs p)))) =
          map (Echo ToRepoFile) (rendered a e)" .
qed

theorem stdout_not_restored_witness:
  "sys_stdout (snd (starred (ex_args ''stars'' [] False) (ex_env forbidden) (fresh Map.empty None)))
     = RepoFile
   \<and> sys_stdout (snd (starred (ex_args [] [] False) (ex_env all_found) (fresh Map.empty None)))
     = Console
   \<and> open_raises (ex_args ''stars'' ''README.md'' False) ex_env_unopened = Some OSError
   \<and> sys_stdout (snd (starred (ex_args ''stars'' ''README.md'' False) ex_env_unopened
                        (fresh Map.empty None)))
     = Console
   \<and> open_raises (ex_args ''stars'' [] False) (ex_env all_found) = None
   \<and> truthy (token (ex_args ''stars'' [] False)) \<and> repository (ex_args ''stars'' [] False) \<noteq> []
   \<and> respond (ex_env all_found) [] (StarredBy (username (ex_args ''stars'' [] False))) = None
   \<and> iter_error (ex_env all_found) = None
   \<and> None \<noteq> Some (snapshot_of (stars (ex_env all_found)))
   \<and> repo_file (snd (starred (ex_args ''stars'' [] False) (ex_env all_found) (fresh Map.empty None)))
     = rendered (ex_args ''stars'' [] False) (ex_env all_found)"
proof -
  have u: "open_raises (ex_args ''stars'' ''README.md'' False) ex_env_unopened = Some OSError"
    by (rule ex_unopened)
  have o: "open_raises (ex_args ''stars'' [] False) (ex_env all_found) = None" by simp
  have tk: "truthy (token (ex_args ''stars'' [] False))" by simp
  have rp: "repository (ex_args ''stars'' [] False) \<noteq> []" by (simp add: ex_repo)
  have ok: "\<forall>tr. respond (ex_env all_found) tr (StarredBy (username (ex_args ''stars'' [] False))) = None"
    by simp
  have it: "iter_error (ex_env all_found) = None" by simp
  have ch: "None \<noteq> Some (snapshot_of (stars (ex_env all_found)))" by simp
  from stdout_not_restored [of "ex_args ''stars'' [] False" "ex_env forbidden" Map.empty None]
  have 1: "sys_stdout (snd (starred (ex_args ''stars'' [] False) (ex_env forbidden) (fresh Map.empty None)))
     = RepoFile" by (simp add: ex_repo)
  from stdout_not_restored [of "ex_args [] [] False" "ex_env all_found" Map.empty None]
  have 2: "sys_stdout (snd (starred (ex_args [] [] False) (ex_env all_found) (fresh Map.empty None)))
     = Console" by simp
  from stdout_not_restored [of "ex_args ''stars'' ''README.md'' False" ex_env_unopened Map.empty None] u
  have 3: "sys_stdout (snd (starred (ex_args ''stars'' ''README.md'' False) ex_env_unopened
                        (fresh Map.empty None))) = Console" by simp
  from stdout_not_restored [of "ex_args ''stars'' [] False" "ex_env all_found" Map.empty None]
    o tk rp ok it ch
  have 4: "repo_file (snd (starred (ex_args ''stars'' [] False) (ex_env all_found) (fresh Map.empty None)))
     = rendered (ex_args ''stars'' [] False) (ex_env all_found)" by blast
  from ok have ok0: "respond (ex_env all_found) [] (StarredBy (username (ex_args ''stars'' [] False))) = None"
    by blast
  note parts = 1 2 u 3 o tk rp ok0 it ch 4
  show ?thesis by (intro conjI) (rule parts)+
qed

section \<open>Heading escape\<close>

text \<open>
  C7, as stated, fails: the heading of \<open>C#\<close> is not the one obtained by inserting a
  space after the \<open>#\<close>.
\<close>

theorem heading_escape_counterexample:
  "heading (py ''C#'') 1 \<noteq> spec_heading (py ''C#'') 1"
  unfolding heading_csharp spec_heading_csharp by (simp add: py_def)

text \<open>
  C7, amended. The heading of a section is \<open>## \<close>, the language name with every
  \<open>#\<close> replaced by \<open># #\<close> (a space and a second \<open>#\<close> inserted after it), the number
  of records in parentheses, a space and a newline; the document holds this heading for
  every group; for \<open>C#\<close> it is \<open>## C# # (1)\<close>, which contains \<open>C# \<close>.
\<close>

theorem heading_escape:
  "heading language n =
     py ''## '' @ concat (map (\<lambda>c. if c = of_char CHR ''#'' then py ''# #'' else [c]) language) @
     py '' ('' @ str_nat n @ py '') '' @ [10]
   \<and> ((language, rs) \<in> set repo_dict \<longrightarrow>
        Text (heading language (length rs)) \<in> set (document a day repo_dict tot))
   \<and> heading (py ''C#'') 1 = py ''## C# # (1) '' @ [10]"
  using heading_eq heading_in_document heading_csharp by blast

theorem heading_escape_witness:
  "(py ''Go'', [entry ex_b 0, entry ex_d 2, entry ex_a 1]) \<in> set (fst (aggregate ex_stars Stars))
   \<and> Text (py ''## Go (3) '' @ [10]) \<in>
        set (document (ex_args [] [] False) (py ''2024-05-01'') (fst (aggregate ex_stars Stars)) 4)"
proof -
  have s: "(py ''Go'', [entry ex_b 0, entry ex_d 2, entry ex_a 1]) \<in> set (fst (aggregate ex_stars Stars))"
    by (simp add: ex_aggregate_stars)
  have h: "heading (py ''Go'') (length [entry ex_b 0, entry ex_d 2, entry ex_a 1]) = py ''## Go (3) '' @ [10]"
    unfolding heading_eq by (subst str_nat.simps) (simp add: py_def)
  from heading_escape [of "py ''Go''" "length [entry ex_b 0, entry ex_d 2, entry ex_a 1]"
      "[entry ex_b 0, entry ex_d 2, entry ex_a 1]" "fst (aggregate ex_stars Stars)"
      "ex_args [] [] False" "py ''2024-05-01''" 4] s
  have "Text (heading (py ''Go'') (length [entry ex_b 0, entry ex_d 2, entry ex_a 1])) \<in>
        set (document (ex_args [] [] False) (py ''2024-05-01'') (fst (aggregate ex_stars Stars)) 4)"
    by blast
  with s h show ?thesis by simp
qed

section \<open>Duplicate archive\<close>

text \<open>
  C8, as stated, fails: in a publishing run on a repository that holds today's archive,
  with the stars equal to the stored snapshot, the run aborts with the no-change error
  before it looks at the repository, and does not report the duplicate-archive error.
\<close>

theorem duplicate_archive_counterexample:
  "respond (ex_env all_found) [] (Repository (py ''u'') (py ''stars'')) = None
   \<and> respond (ex_env all_found) [] (FileContents (py ''/Archives/README-2024-05-01.md'')) = None
   \<and> fst (starred (ex_args ''stars'' [] False) (ex_env all_found)
            (fresh Map.empty (Some (snapshot_of ex_stars))))
       = Aborted (NotChange (py ''2024-05-01''))
   \<and> Stderr (AlreadyCommit (py ''2024-05-01''))
       \<notin> set (trace (snd (starred (ex_args ''stars'' [] False) (ex_env all_found)
                              (fresh Map.empty (Some (snapshot_of ex_stars))))))"
proof -
  note r = run_not_changed [where a = "ex_args ''stars'' [] False" and e = "ex_env all_found"
      and p = "Some (snapshot_of ex_stars)" and fs = Map.empty]
  have 1: "fst (starred (ex_args ''stars'' [] False) (ex_env all_found)
            (fresh Map.empty (Some (snapshot_of ex_stars))))
       = Aborted (NotChange (today (ex_env all_found)))"
    by (rule r(1)) (simp_all add: ex_repo)
  have 2: "trace (snd (starred (ex_args ''stars'' [] False) (ex_env all_found)
                              (fresh Map.empty (Some (snapshot_of ex_stars))))) =
        open_events (ex_args ''stars'' [] False) (ex_env all_found) @
        [Call (StarredBy (username (ex_args ''stars'' [] False))),
         Stderr (NotChange (today (ex_env all_found)))]"
    by (rule r(3)) (simp_all add: ex_repo)
  from 1 2 show ?thesis by simp
qed

text \<open>
  C8, amended. In a publishing run (repository and token given, fetch succeeded) where
  the lookup of the repository and the lookup of today's archive both succeed, no
  remote call of the run writes; and when the output was opened and the stars differ
  from the stored snapshot, so that the run reaches publishing, it reports the
  duplicate-archive error and its remote calls are the fetch and the two lookups only.
\<close>

theorem duplicate_archive:
  assumes "truthy (token a)" and "repository a \<noteq> []"
      and "\<And>tr. respond e tr (StarredBy (username a)) = None"
      and "iter_error e = None"
      and "\<And>tr. respond e tr (Repository (username a) (repository a)) = None"
      and "\<And>tr. respond e tr (FileContents (py ''/Archives/README-'' @ today e @ py ''.md'')) = None"
  shows "list_all (\<lambda>c. \<not> writes c) (calls_of (trace (snd (starred a e (fresh fs p)))))
     \<and> (open_raises a e = None \<and> p \<noteq> Some (snapshot_of (stars e)) \<longrightarrow>
          fst (starred a e (fresh fs p)) = Finished \<and>
          Stderr (AlreadyCommit (today e)) \<in> set (trace (snd (starred a e (fresh fs p)))) \<and>
          calls_of (trace (snd (starred a e (fresh fs p)))) =
            [StarredBy (username a), Repository (username a) (repository a),
             FileContents (py ''/Archives/README-'' @ today e @ py ''.md'')])"
proof (cases "open_raises a e")
  case (Some x)
  from run_unopened(5) [OF Some, of fs p] Some show ?thesis by simp
next
  case None
  show ?thesis
  proof (cases "p = Some (snapshot_of (stars e))")
    case True
    from run_not_changed(3) [OF None assms(1-4) True, of fs] True show ?thesis by simp
  next
    case False
    note d = run_duplicate [OF None assms(1-4) False assms(5) assms(6) [unfolded lookup_path_eq], of fs]
    from d(1) d(2) False show ?thesis
      by (simp add: lookup_path_eq) (simp add: duplicate_events_def)
  qed
qed

theorem duplicate_archive_witness:
  "truthy (token (ex_args ''stars'' [] False)) \<and> repository (ex_args ''stars'' [] False) \<noteq> []
   \<and> respond (ex_env all_found) [] (StarredBy (username (ex_args ''stars'' [] False))) = None
   \<and> iter_error (ex_env all_found) = None
   \<and> respond (ex_env all_found) []
       (Repository (username (ex_args ''stars'' [] False)) (repository (ex_args ''stars'' [] False))) = None
   \<and> respond (ex_env all_found) []
       (FileContents (py ''/Archives/README-'' @ today (ex_env all_found) @ py ''.md'')) = None
   \<and> open_raises (ex_args ''stars'' [] False) (ex_env all_found) = None
   \<and> None \<noteq> Some (snapshot_of (stars (ex_env all_found)))
   \<and> fst (starred (ex_args ''stars'' [] False) (ex_env all_found) (fresh Map.empty None)) = Finished
   \<and> Stderr (AlreadyCommit (py ''2024-05-01''))
       \<in> set (trace (snd (starred (ex_args ''stars'' [] False) (ex_env all_found) (fresh Map.empty None))))
   \<and> calls_of (trace (snd (starred (ex_args ''stars'' [] False) (ex_env all_found) (fresh Map.empty None))))
       = [StarredBy (py ''u''), Repository (py ''u'') (py ''stars''),
          FileContents (py ''/Archives/README-2024-05-01.md'')]"
proof -
  have p: "py ''/Archives/README-'' @ py ''2024-05-01'' @ py ''.md'' = py ''/Archives/README-2024-05-01.md''"
    by (simp add: py_def)
  from duplicate_archive [where a = "ex_args ''stars'' [] False" and e = "ex_env all_found"
      and p = None and fs = Map.empty]
  show ?thesis by (simp add: ex_repo p)
qed

section \<open>Launch after the duplicate-archive error\<close>

text \<open>
  C9 fails on the code: with \<open>--launch\<close>, a publishing run that finds today's archive
  reports the duplicate-archive error, writes nothing to the repository, and then
  launches the browser.
\<close>

theorem launch_after_duplicate_error:
  "fst (starred (ex_args ''stars'' [] True) (ex_env all_found) (fresh Map.empty None)) = Finished
   \<and> calls_of (trace (snd (starred (ex_args ''stars'' [] True) (ex_env all_found) (fresh Map.empty None))))
       = [StarredBy (py ''u''), Repository (py ''u'') (py ''stars''),
          FileContents (py ''/Archives/README-2024-05-01.md'')]
   \<and> Stderr (AlreadyCommit (py ''2024-05-01''))
       \<in> set (trace (snd (starred (ex_args ''stars'' [] True) (ex_env all_found) (fresh Map.empty None))))
   \<and> last (trace (snd (starred (ex_args ''stars'' [] True) (ex_env all_found) (fresh Map.empty None))))
       = Launch"
proof -
  note d = run_duplicate [where a = "ex_args ''stars'' [] True" and e = "ex_env all_found"
      and p = None and fs = Map.empty]
  have "fst (starred (ex_args ''stars'' [] True) (ex_env all_found) (fresh Map.empty None)) = Finished"
    by (rule d(1)) (simp_all add: ex_repo)
  moreover have "trace (snd (starred (ex_args ''stars'' [] True) (ex_env all_found) (fresh Map.empty None))) =
      open_events (ex_args ''stars'' [] True) (ex_env all_found) @
      [Call (StarredBy (username (ex_args ''stars'' [] True))),
       Dump (snapshot_of (stars (ex_env all_found)))] @
      map (Echo ToRepoFile) (rendered (ex_args ''stars'' [] True) (ex_env all_found)) @
      duplicate_events (ex_args ''stars'' [] True) (ex_env all_found)"
    by (rule d(2)) (simp_all add: ex_repo)
  ultimately show ?thesis
    by (simp add: ex_lookup_path) (simp add: duplicate_events_def)
qed

section \<open>The snapshot is written before publishing\<close>

text \<open>
  C10. When the stars differ from the stored snapshot (and the run reaches the
  comparison: the output was opened and the fetch succeeded), the new snapshot is
  stored at the end of the run however publishing ends; in the effects of the run its
  write comes right after the opening of the output and the fetch, none of which
  renders or publishes; and a publishing run started afterwards on the same stars
  aborts with the no-change error, its only remote call being the fetch.
\<close>

theorem snapshot_before_publish:
  assumes "open_raises a e = None"
      and "repository a \<noteq> [] \<longrightarrow> truthy (token a)"
      and "\<And>tr. respond e tr (StarredBy (username a)) = None"
      and "iter_error e = None"
      and "p \<noteq> Some (snapshot_of (stars e))"
      and "open_raises a2 e2 = None"
      and "truthy (token a2)" and "repository a2 \<noteq> []"
      and "\<And>tr. respond e2 tr (StarredBy (username a2)) = None"
      and "iter_error e2 = None"
      and "stars e2 = stars e"
  shows "pkl (snd (starred a e (fresh fs p))) = Some (snapshot_of (stars e))
     \<and> (\<exists>rest. trace (snd (starred a e (fresh fs p))) =
           open_events a e @ [Call (StarredBy (username a)), Dump (snapshot_of (stars e))] @ rest)
     \<and> \<not> list_ex renders_or_publishes (open_events a e @ [Call (StarredBy (username a))])
     \<and> fst (starred a2 e2 (fresh (files (snd (starred a e (fresh fs p))))
                               (pkl (snd (starred a e (fresh fs p))))))
         = Aborted (NotChange (today e2))
     \<and> calls_of (trace (snd (starred a2 e2 (fresh (files (snd (starred a e (fresh fs p))))
                                               (pkl (snd (starred a e (fresh fs p))))))))
         = [StarredBy (username a2)]"
proof -
  note c = run_changed [OF assms(1-5), of fs]
  have same: "pkl (snd (starred a e (fresh fs p))) = Some (snapshot_of (stars e2))"
    using c(1) assms(11) by simp
  note n = run_not_changed [OF assms(6-10) same, of "files (snd (starred a e (fresh fs p)))"]
  have q: "\<not> list_ex renders_or_publishes (open_events a e @ [Call (StarredBy (username a))])"
    by simp
  from n(3) have k: "calls_of (trace (snd (starred a2 e2 (fresh (files (snd (starred a e (fresh fs p))))
                                               (pkl (snd (starred a e (fresh fs p)))))))) = [StarredBy (username a2)]"
    by simp
  from c(1) c(2) q n(1) k show ?thesis by blast
qed

theorem snapshot_before_publish_witness:
  "open_raises (ex_args ''stars'' [] False) (ex_env all_found) = None
   \<and> truthy (token (ex_args ''stars'' [] False)) \<and> repository (ex_args ''stars'' [] False) \<noteq> []
   \<and> respond (ex_env all_found) [] (StarredBy (username (ex_args ''stars'' [] False))) = None
   \<and> iter_error (ex_env all_found) = None
   \<and> None \<noteq> Some (snapshot_of (stars (ex_env all_found)))
   \<and> calls_of (trace (snd (starred (ex_args ''stars'' [] False) (ex_env all_found) (fresh Map.empty None))))
       = [StarredBy (py ''u''), Repository (py ''u'') (py ''stars''),
          FileContents (py ''/Archives/README-2024-05-01.md'')]
   \<and> pkl (snd (starred (ex_args ''stars'' [] False) (ex_env all_found) (fresh Map.empty None)))
       = Some (snapshot_of ex_stars)
   \<and> fst (starred (ex_args ''stars'' [] False) (ex_env all_found)
            (fresh (files (snd (starred (ex_args ''stars'' [] False) (ex_env all_found) (fresh Map.empty None))))
                   (pkl (snd (starred (ex_args ''stars'' [] False) (ex_env all_found) (fresh Map.empty None))))))
       = Aborted (NotChange (py ''2024-05-01''))
   \<and> calls_of (trace (snd (starred (ex_args ''stars'' [] False) (ex_env all_found)
            (fresh (files (snd (starred (ex_args ''stars'' [] False) (ex_env all_found) (fresh Map.empty None))))
                   (pkl (snd (starred (ex_args ''stars'' [] False) (ex_env all_found) (fresh Map.empty None))))))))
       = [StarredBy (py ''u'')]"
proof -
  have o: "open_raises (ex_args ''stars'' [] False) (ex_env all_found) = None" by simp
  have t: "repository (ex_args ''stars'' [] False) \<noteq> [] \<longrightarrow> truthy (token (ex_args ''stars'' [] False))"
    by simp
  have tk: "truthy (token (ex_args ''stars'' [] False))" by simp
  have rp: "repository (ex_args ''stars'' [] False) \<noteq> []" by (simp add: ex_repo)
  have ok: "\<And>tr. respond (ex_env all_found) tr (StarredBy (username (ex_args ''stars'' [] False))) = None"
    by simp
  have it: "iter_error (ex_env all_found) = None" by simp
  have ch: "None \<noteq> Some (snapshot_of (stars (ex_env all_found)))" by simp
  have r: "\<And>tr. respond (ex_env all_found) tr
             (Repository (username (ex_args ''stars'' [] False)) (repository (ex_args ''stars'' [] False))) = None"
    by simp
  have c: "\<And>tr. respond (ex_env all_found) tr (FileContents (lookup_path (ex_env all_found))) = None"
    by simp
  have d: "calls_of (trace (snd (starred (ex_args ''stars'' [] False) (ex_env all_found) (fresh Map.empty None))))
       = [StarredBy (py ''u''), Repository (py ''u'') (py ''stars''),
          FileContents (py ''/Archives/README-2024-05-01.md'')]"
    by (simp add: run_duplicate(2) [OF o tk rp ok it ch r c] ex_lookup_path)
  note w = snapshot_before_publish [OF o t ok it ch o tk rp ok it refl, of Map.empty,
      unfolded ex_env_fields ex_args_fields]
  from w have w1: "pkl (snd (starred (ex_args ''stars'' [] False) (ex_env all_found) (fresh Map.empty None)))
       = Some (snapshot_of ex_stars)" by blast
  from w have w2: "fst (starred (ex_args ''stars'' [] False) (ex_env all_found)
            (fresh (files (snd (starred (ex_args ''stars'' [] False) (ex_env all_found) (fresh Map.empty None))))
                   (pkl (snd (starred (ex_args ''stars'' [] False) (ex_env all_found) (fresh Map.empty None))))))
       = Aborted (NotChange (py ''2024-05-01''))" by blast
  from w have w3: "calls_of (trace (snd (starred (ex_args ''stars'' [] False) (ex_env all_found)
            (fresh (files (snd (starred (ex_args ''stars'' [] False) (ex_env all_found) (fresh Map.empty None))))
                   (pkl (snd (starred (ex_args ''stars'' [] False) (ex_env all_found) (fresh Map.empty None))))))))
       = [StarredBy (py ''u'')]" by blast
  note parts = o tk rp ok [of "[]"] it ch d w1 w2 w3
  show ?thesis by (intro conjI) (rule parts)+
qed

end
